theory Spec2Isabelle
  imports Main "HOL-Library.Multiset" "HOL-Library.Char_ord" "HOL-Library.List_Lexorder"
    "HOL-Library.AList"
begin

section \<open>Go values, panics and errors\<close>

text \<open>
  The clause generators, \<open>Session.Update\<close> and the driver all work on \<open>interface{}\<close>
  values. The dynamic types that the repository passes around are strings, ints, bools,
  \<open>[]string\<close>, \<open>[]interface{}\<close> and \<open>map[string]interface{}\<close>, and the nil interface.
  Go's \<open>int\<close> is 64 bits wide; no arithmetic is done on these values, so they are
  carried as \<open>int\<close>.

  A Go map has no order of its own: \<open>range\<close> enumerates it in an order the runtime picks.
  \<open>VMap kvs\<close> is the map whose entries \<open>range\<close> enumerates in the order of \<open>kvs\<close>; a
  well-formed map has distinct keys. A statement about every \<open>kvs\<close> is therefore a
  statement about every map under every enumeration order.
\<close>

datatype "value" =
    VNil
  | VStr string
  | VInt int
  | VBool bool
  | VStrs "string list"
  | VList "value list"
  | VMap "(string \<times> value) list"

text \<open>The kinds of \<open>reflect.Kind\<close>.\<close>

datatype kind =
    reflect_Invalid | reflect_Bool
  | reflect_Int | reflect_Int8 | reflect_Int16 | reflect_Int32 | reflect_Int64
  | reflect_Uint | reflect_Uint8 | reflect_Uint16 | reflect_Uint32 | reflect_Uint64
  | reflect_Uintptr | reflect_Float32 | reflect_Float64 | reflect_Complex64 | reflect_Complex128
  | reflect_Array | reflect_Chan | reflect_Func | reflect_Interface | reflect_Map
  | reflect_Pointer | reflect_Slice | reflect_String | reflect_Struct | reflect_UnsafePointer

text \<open>
  The panics of the code at hand: an index out of range (index and length), slice bounds
  out of range (low bound and length), a failed type assertion, a call through a nil
  pointer, the panic of \<open>DataTypeOf\<close> (with the type's name and kind), a method of
  \<open>reflect\<close> called on a Value it does not accept (the zero Value, a pointer where a
  struct is needed), \<open>reflect.Value.Set\<close> on a Value that is not addressable, and a panic
  raised by a caller's function.
\<close>

datatype panic =
    IndexOutOfRange nat nat
  | SliceBoundsOutOfRange nat nat
  | TypeAssertion
  | NilDereference
  | InvalidSqlType string kind
  | ReflectValueError
  | ReflectUnaddressable
  | Raised string

text \<open>
  Error values: \<open>ErrorsNew msg\<close> is what \<open>errors.New(msg)\<close> builds inside this
  repository; \<open>DriverError msg\<close> is an error handed back by \<open>database/sql\<close>.
\<close>

datatype go_error = ErrorsNew string | DriverError string

text \<open>\<open>xs[i]\<close> on a slice: a run-time panic when the index is out of range.\<close>

definition index :: "'a list \<Rightarrow> nat \<Rightarrow> panic + 'a" where
  "index xs i = (if i < length xs then Inr (xs ! i) else Inl (IndexOutOfRange i (length xs)))"

section \<open>strings.Join and fmt.Sprintf verbs\<close>

fun Join :: "string list \<Rightarrow> string \<Rightarrow> string" where
  "Join [] sep = []"
| "Join [x] sep = x"
| "Join (x # y # ys) sep = x @ sep @ Join (y # ys) sep"

text \<open>The decimal digits of a number, and an int in decimal, as \<open>%v\<close> prints it.\<close>

fun digits :: "nat \<Rightarrow> string" where
  "digits n = (if n < 10 then [''0123456789'' ! n]
               else digits (n div 10) @ [''0123456789'' ! (n mod 10)])"

declare digits.simps [simp del]

definition itoa :: "int \<Rightarrow> string" where
  "itoa i = (if i < 0 then ''-'' @ digits (nat (- i)) else digits (nat i))"

text \<open>
  What \<open>fmt.Sprintf\<close> prints for one operand under \<open>%s\<close> and under \<open>%v\<close>. A string
  prints as itself under both; an int or a bool under \<open>%s\<close> prints fmt's bad-verb
  notice, and so does the nil operand; slices print their elements between brackets, maps
  their entries sorted by key, with the verb handed down to the elements. A nil element
  of a slice or a map prints as \<open><nil>\<close> under both verbs.
\<close>

datatype verb = VerbS | VerbV

fun sprint :: "verb \<Rightarrow> value \<Rightarrow> string" where
  "sprint VerbV VNil = ''<nil>''"
| "sprint VerbS VNil = ''%!s(<nil>)''"
| "sprint vb (VStr s) = s"
| "sprint VerbV (VInt i) = itoa i"
| "sprint VerbS (VInt i) = ''%!s(int='' @ itoa i @ '')''"
| "sprint VerbV (VBool b) = (if b then ''true'' else ''false'')"
| "sprint VerbS (VBool b) = ''%!s(bool='' @ (if b then ''true'' else ''false'') @ '')''"
| "sprint vb (VStrs xs) = ''['' @ Join xs '' '' @ '']''"
| "sprint vb (VList vs) =
     ''['' @ Join (map (\<lambda>v. if v = VNil then ''<nil>'' else sprint vb v) vs) '' '' @ '']''"
| "sprint vb (VMap kvs) =
     ''map[''
       @ Join (map (\<lambda>kv. fst kv @ '':'' @ (if snd kv = VNil then ''<nil>'' else sprint vb (snd kv)))
                 (sort_key fst kvs)) '' ''
       @ '']''"

section \<open>Package clause: the generators\<close>

datatype ctype = INSERT | VALUES | SELECT | LIMIT | WHERE | ORDERBY | UPDATE | DELETE | COUNT

type_synonym generator = "value list \<Rightarrow> panic + (string \<times> value list)"

text \<open>\<open>genBindVars(3)\<close> is \<open>"?, ?, ?"\<close>: the loop appends \<open>num\<close> question marks.\<close>

definition genBindVars :: "nat \<Rightarrow> string" where
  "genBindVars num = Join (replicate num ''?'') '', ''"

text \<open>The type assertion \<open>v.([]string)\<close>, \<open>v.([]interface{})\<close>, \<open>v.(string)\<close> and
  the one on maps: a panic when the dynamic type is another one.\<close>

fun assert_strs :: "value \<Rightarrow> panic + string list" where
  "assert_strs (VStrs xs) = Inr xs"
| "assert_strs v = Inl TypeAssertion"

fun assert_list :: "value \<Rightarrow> panic + value list" where
  "assert_list (VList vs) = Inr vs"
| "assert_list v = Inl TypeAssertion"

fun assert_string :: "value \<Rightarrow> panic + string" where
  "assert_string (VStr s) = Inr s"
| "assert_string v = Inl TypeAssertion"

fun assert_map :: "value \<Rightarrow> panic + (string \<times> value) list" where
  "assert_map (VMap kvs) = Inr kvs"
| "assert_map v = Inl TypeAssertion"

definition insert_gen :: generator where
  "insert_gen values =
     (case index values 0 of Inl p \<Rightarrow> Inl p | Inr tableName \<Rightarrow>
      case index values 1 of Inl p \<Rightarrow> Inl p | Inr v1 \<Rightarrow>
      case assert_strs v1 of Inl p \<Rightarrow> Inl p | Inr names \<Rightarrow>
        Inr (''INSERT INTO '' @ sprint VerbS tableName @ '' ('' @ Join names '', '' @ '')'', []))"

text \<open>
  The loop of \<open>_values\<close>: \<open>bindStr\<close> is computed from the first row whose placeholder
  string is not empty, \<open>n\<close> is \<open>len(values)\<close> and \<open>i\<close> the index of the row at hand.
\<close>

fun values_loop ::
  "nat \<Rightarrow> nat \<Rightarrow> value list \<Rightarrow> string \<Rightarrow> string \<Rightarrow> value list \<Rightarrow> panic + (string \<times> value list)"
where
  "values_loop n i [] bindStr sql vars = Inr (sql, vars)"
| "values_loop n i (val # rest) bindStr sql vars =
     (case assert_list val of Inl p \<Rightarrow> Inl p | Inr v \<Rightarrow>
        let bindStr' = (if bindStr = [] then genBindVars (length v) else bindStr);
            sql' = sql @ ''('' @ bindStr' @ '')'';
            sql'' = (if i + 1 \<noteq> n then sql' @ '', '' else sql')
        in values_loop n (i + 1) rest bindStr' sql'' (vars @ v))"

definition values_gen :: generator where
  "values_gen values = values_loop (length values) 0 values [] ''VALUES '' []"

definition select_gen :: generator where
  "select_gen values =
     (case index values 0 of Inl p \<Rightarrow> Inl p | Inr tableName \<Rightarrow>
      case index values 1 of Inl p \<Rightarrow> Inl p | Inr v1 \<Rightarrow>
      case assert_strs v1 of Inl p \<Rightarrow> Inl p | Inr names \<Rightarrow>
        Inr (''SELECT '' @ Join names '', '' @ '' FROM '' @ sprint VerbS tableName, []))"

definition limit_gen :: generator where
  "limit_gen values = Inr (''LIMIT ?'', values)"

text \<open>
  \<open>_where\<close> takes \<open>values[0]\<close> and \<open>values[1:]\<close> in one assignment. On an empty
  argument list the panic is the one of the slice expression: slice bounds out of range
  \<open>[1:0]\<close>.
\<close>

definition where_gen :: generator where
  "where_gen values =
     (if length values < 1 then Inl (SliceBoundsOutOfRange 1 (length values))
      else case index values 0 of Inl p \<Rightarrow> Inl p | Inr desc \<Rightarrow>
        Inr (''WHERE '' @ sprint VerbV desc, tl values))"

definition orderBy_gen :: generator where
  "orderBy_gen values =
     (case index values 0 of Inl p \<Rightarrow> Inl p | Inr v0 \<Rightarrow>
        Inr (''ORDER BY '' @ sprint VerbV v0, []))"

text \<open>
  \<open>_update\<close> ranges over the map and appends \<open>key + " = ?"\<close> to \<open>keys\<close> and the value to
  \<open>vars\<close>, entry by entry, in the enumeration order.
\<close>

fun update_loop :: "(string \<times> value) list \<Rightarrow> string list \<Rightarrow> value list \<Rightarrow> string list \<times> value list"
where
  "update_loop [] keys vars = (keys, vars)"
| "update_loop ((key, val) # rest) keys vars = update_loop rest (keys @ [key @ '' = ?'']) (vars @ [val])"

definition update_gen :: generator where
  "update_gen values =
     (case index values 0 of Inl p \<Rightarrow> Inl p | Inr tableName \<Rightarrow>
      case index values 1 of Inl p \<Rightarrow> Inl p | Inr v1 \<Rightarrow>
      case assert_map v1 of Inl p \<Rightarrow> Inl p | Inr m \<Rightarrow>
        let (keys, vars) = update_loop m [] []
        in Inr (''UPDATE '' @ sprint VerbS tableName @ '' SET '' @ Join keys '', '', vars))"

definition delete_gen :: generator where
  "delete_gen values =
     (case index values 0 of Inl p \<Rightarrow> Inl p | Inr v0 \<Rightarrow>
        Inr (''DELETE FROM '' @ sprint VerbS v0, []))"

definition count_gen :: generator where
  "count_gen values =
     (case index values 0 of Inl p \<Rightarrow> Inl p | Inr v0 \<Rightarrow>
        select_gen [v0, VStrs [''count(*)'']])"

text \<open>The table filled by \<open>init\<close>.\<close>

fun generators :: "ctype \<Rightarrow> generator" where
  "generators INSERT = insert_gen"
| "generators VALUES = values_gen"
| "generators SELECT = select_gen"
| "generators LIMIT = limit_gen"
| "generators WHERE = where_gen"
| "generators ORDERBY = orderBy_gen"
| "generators UPDATE = update_gen"
| "generators DELETE = delete_gen"
| "generators COUNT = count_gen"

section \<open>Package clause: Clause, Set and Build\<close>

text \<open>
  The two maps of a \<open>Clause\<close>. A nil map reads like an empty one, and \<open>Set\<close> allocates
  both maps before its first write, so the zero value \<open>Clause{}\<close> is the pair of empty
  maps.
\<close>

record Clause =
  c_sql :: "ctype \<rightharpoonup> string"
  c_sqlVars :: "ctype \<rightharpoonup> value list"

definition Clause_zero :: Clause where
  "Clause_zero = \<lparr>c_sql = Map.empty, c_sqlVars = Map.empty\<rparr>"

definition Clause_Set :: "Clause \<Rightarrow> ctype \<Rightarrow> value list \<Rightarrow> panic + Clause" where
  "Clause_Set c name vars =
     (case generators name vars of
        Inl p \<Rightarrow> Inl p
      | Inr (sql, vars') \<Rightarrow>
          Inr (c\<lparr>c_sql := (c_sql c)(name \<mapsto> sql), c_sqlVars := (c_sqlVars c)(name \<mapsto> vars')\<rparr>))"

text \<open>The loop of \<open>Build\<close> over \<open>orders\<close>, with the two accumulators.\<close>

fun Build_loop :: "Clause \<Rightarrow> ctype list \<Rightarrow> string list \<Rightarrow> value list \<Rightarrow> string list \<times> value list"
where
  "Build_loop c [] sqls vars = (sqls, vars)"
| "Build_loop c (order # rest) sqls vars =
     (case c_sql c order of
        Some sql \<Rightarrow>
          Build_loop c rest (sqls @ [sql])
            (vars @ (case c_sqlVars c order of None \<Rightarrow> [] | Some vs \<Rightarrow> vs))
      | None \<Rightarrow> Build_loop c rest sqls vars)"

text \<open>
  \<open>Build\<close> has a pointer receiver; the model returns the Clause it leaves behind next
  to the statement and its parameters.
\<close>

definition Clause_Build :: "Clause \<Rightarrow> ctype list \<Rightarrow> (string \<times> value list) \<times> Clause" where
  "Clause_Build c orders =
     (let (sqls, vars) = Build_loop c orders [] [] in ((Join sqls '' '', vars), c))"

text \<open>A sequence of \<open>Set\<close> calls on one Clause; the first panic ends it.\<close>

fun Set_all :: "Clause \<Rightarrow> (ctype \<times> value list) list \<Rightarrow> panic + Clause" where
  "Set_all c [] = Inr c"
| "Set_all c ((name, vars) # rest) =
     (case Clause_Set c name vars of Inl p \<Rightarrow> Inl p | Inr c' \<Rightarrow> Set_all c' rest)"

text \<open>The four calls of \<open>testSelect\<close> in \<open>clause_test.go\<close>.\<close>

definition testSelect_calls :: "(ctype \<times> value list) list" where
  "testSelect_calls =
     [(LIMIT, [VInt 3]),
      (SELECT, [VStr ''User'', VStrs [''*'']]),
      (WHERE, [VStr ''Name = ?'', VStr ''Tom'']),
      (ORDERBY, [VStr ''Age DESC''])]"

section \<open>Package dialect\<close>

text \<open>
  What \<open>reflect\<close> tells about a type: its name, its kind, and whether it is
  \<open>time.Time\<close> (the type assertion in \<open>DataTypeOf\<close>).
\<close>

record go_type =
  type_Name :: string
  type_Kind :: kind
  type_is_Time :: bool

record Dialect =
  DataTypeOf :: "go_type \<Rightarrow> panic + string"
  TableExistSQL :: "string \<Rightarrow> string \<times> value list"

definition sqlite3_DataTypeOf :: "go_type \<Rightarrow> panic + string" where
  "sqlite3_DataTypeOf typ =
     (let k = type_Kind typ in
      if k = reflect_Bool then Inr ''bool''
      else if k \<in> {reflect_Int, reflect_Int8, reflect_Int16, reflect_Int32,
                     reflect_Uint, reflect_Uint8, reflect_Uint16, reflect_Uint32}
        then Inr ''integer''
      else if k \<in> {reflect_Int64, reflect_Uint64} then Inr ''bigint''
      else if k \<in> {reflect_Float32, reflect_Float64} then Inr ''real''
      else if k = reflect_String then Inr ''text''
      else if k \<in> {reflect_Array, reflect_Slice} then Inr ''blob''
      else if k = reflect_Struct \<and> type_is_Time typ then Inr ''datetime''
      else Inl (InvalidSqlType (type_Name typ) k))"

definition sqlite3_TableExistSQL :: "string \<Rightarrow> string \<times> value list" where
  "sqlite3_TableExistSQL tableName =
     (''SELECT name FROM sqlite_master WHERE type='' @ [CHR 0x27] @ ''table'' @ [CHR 0x27]
        @ '' and name = ?'', [VStr tableName])"

definition sqlite3 :: Dialect where
  "sqlite3 = \<lparr>DataTypeOf = sqlite3_DataTypeOf, TableExistSQL = sqlite3_TableExistSQL\<rparr>"

section \<open>Package schema\<close>

text \<open>
  A struct type as \<open>reflect\<close> shows it to \<open>Parse\<close>: for each field its name, whether it
  is anonymous (embedded), whether \<open>ast.IsExported\<close> holds of its name (the name begins
  with an upper-case letter), its type, and the result of \<open>Tag.Lookup("geeorm")\<close>.
\<close>

record struct_field =
  sf_Name :: string
  sf_Anonymous :: bool
  sf_Exported :: bool
  sf_Type :: go_type
  sf_geeorm :: "string option"

record struct_type =
  st_Name :: string
  st_Fields :: "struct_field list"

text \<open>
  A model value handed to \<open>Parse\<close> or \<open>Session.Model\<close>: a struct, a pointer to a
  struct, or a nil pointer of such a pointer type. \<open>reflect.TypeOf\<close> tells a struct from
  a pointer, and not a nil pointer from another; \<open>reflect.Indirect\<close> gives the struct
  for a struct and for a pointer to it, and the zero Value for a nil pointer.
\<close>

datatype model_ref =
    StructValue struct_type
  | Pointer struct_type
  | NilPointer struct_type

datatype reflect_Type = StructType struct_type | PointerType struct_type

fun TypeOf :: "model_ref \<Rightarrow> reflect_Type" where
  "TypeOf (StructValue t) = StructType t"
| "TypeOf (Pointer t) = PointerType t"
| "TypeOf (NilPointer t) = PointerType t"

fun Indirect :: "model_ref \<Rightarrow> struct_type option" where
  "Indirect (StructValue t) = Some t"
| "Indirect (Pointer t) = Some t"
| "Indirect (NilPointer t) = None"

record Field =
  f_Name :: string
  f_Type :: string
  f_Tag :: string

record Schema =
  sc_Model :: model_ref
  sc_Name :: string
  sc_Fields :: "Field list"
  sc_FieldNames :: "string list"
  sc_fieldMap :: "string \<rightharpoonup> Field"

definition GetField :: "Schema \<Rightarrow> string \<Rightarrow> Field option" where
  "GetField s name = sc_fieldMap s name"

text \<open>The loop of \<open>Parse\<close> over the fields \<open>modelType.Field(i)\<close>, in declaration order.\<close>

fun Parse_loop :: "Dialect \<Rightarrow> struct_field list \<Rightarrow> Schema \<Rightarrow> panic + Schema" where
  "Parse_loop d [] schema = Inr schema"
| "Parse_loop d (p # ps) schema =
     (if \<not> sf_Anonymous p \<and> sf_Exported p then
        (case DataTypeOf d (sf_Type p) of
           Inl pn \<Rightarrow> Inl pn
         | Inr ty \<Rightarrow>
             let field = \<lparr>f_Name = sf_Name p, f_Type = ty,
                          f_Tag = (case sf_geeorm p of Some v \<Rightarrow> v | None \<Rightarrow> [])\<rparr>
             in Parse_loop d ps
                  (schema\<lparr>sc_Fields := sc_Fields schema @ [field],
                          sc_FieldNames := sc_FieldNames schema @ [sf_Name p],
                          sc_fieldMap := (sc_fieldMap schema)(sf_Name p \<mapsto> field)\<rparr>))
      else Parse_loop d ps schema)"

text \<open>
  \<open>Parse\<close> starts with \<open>reflect.Indirect(reflect.ValueOf(dest)).Type()\<close>: on a nil
  pointer \<open>Type\<close> is called on the zero Value and panics.
\<close>

definition Parse :: "model_ref \<Rightarrow> Dialect \<Rightarrow> panic + Schema" where
  "Parse dest d =
     (case Indirect dest of
        None \<Rightarrow> Inl ReflectValueError
      | Some modelType \<Rightarrow>
          Parse_loop d (st_Fields modelType)
            \<lparr>sc_Model = dest, sc_Name = st_Name modelType, sc_Fields = [], sc_FieldNames = [],
             sc_fieldMap = Map.empty\<rparr>)"

section \<open>The database/sql boundary\<close>

text \<open>
  \<open>database/sql\<close> is outside the repository. The model records every call that reaches
  it, with the handle it was made on, and takes the answers from a \<open>Driver\<close>, which sees
  the calls made so far. \<open>CommonDB\<close> is the interface of \<open>record.go\<close>: a \<open>*sql.DB\<close>
  or a \<open>*sql.Tx\<close>.
\<close>

type_synonym db_handle = nat
type_synonym tx_handle = nat

datatype CommonDB = SqlDB db_handle | SqlTx tx_handle

datatype call =
    Exec_call CommonDB string "value list"
  | Query_call CommonDB string "value list"
  | QueryRow_call CommonDB string "value list"
  | Begin_call db_handle
  | Commit_call tx_handle
  | Rollback_call tx_handle

text \<open>
  A \<open>sql.Result\<close> is the pair that \<open>RowsAffected\<close> returns; a \<open>*sql.Row\<close> is what its \<open>Scan\<close>
  will deliver; a \<open>*sql.Rows\<close> has its column names, the rows \<open>Next\<close> steps through and
  the result of \<open>Close\<close>.
\<close>

type_synonym sql_Result = "int \<times> go_error option"
type_synonym sql_Row = "go_error + value list"

record sql_Rows =
  rows_Columns :: "string list"
  rows_data :: "value list list"
  rows_Close :: "go_error option"

record Driver =
  drv_Exec :: "call list \<Rightarrow> CommonDB \<Rightarrow> string \<Rightarrow> value list \<Rightarrow> go_error + sql_Result"
  drv_Query :: "call list \<Rightarrow> CommonDB \<Rightarrow> string \<Rightarrow> value list \<Rightarrow> go_error + sql_Rows"
  drv_QueryRow :: "call list \<Rightarrow> CommonDB \<Rightarrow> string \<Rightarrow> value list \<Rightarrow> sql_Row"
  drv_Begin :: "call list \<Rightarrow> db_handle \<Rightarrow> go_error + tx_handle"
  drv_Commit :: "call list \<Rightarrow> tx_handle \<Rightarrow> go_error option"
  drv_Rollback :: "call list \<Rightarrow> tx_handle \<Rightarrow> go_error option"
  drv_Scan :: "value list \<Rightarrow> go_type list \<Rightarrow> go_error + value list"

text \<open>A function that returns a value of type \<open>'a\<close> or panics.\<close>

datatype 'a outcome = Returns 'a | Panics panic

section \<open>Package session: the Session and its raw statement\<close>

record Session =
  s_db :: db_handle
  s_sql :: string
  s_sqlVars :: "value list"
  s_dialect :: Dialect
  s_refTable :: "Schema option"
  s_clause :: Clause
  s_tx :: "tx_handle option"

definition New :: "db_handle \<Rightarrow> Dialect \<Rightarrow> Session" where
  "New db dialect =
     \<lparr>s_db = db, s_sql = [], s_sqlVars = [], s_dialect = dialect, s_refTable = None,
      s_clause = Clause_zero, s_tx = None\<rparr>"

definition Clear :: "Session \<Rightarrow> Session" where
  "Clear s = s\<lparr>s_sql := [], s_sqlVars := [], s_clause := Clause_zero\<rparr>"

definition DB :: "Session \<Rightarrow> CommonDB" where
  "DB s = (case s_tx s of Some tx \<Rightarrow> SqlTx tx | None \<Rightarrow> SqlDB (s_db s))"

definition Raw :: "Session \<Rightarrow> string \<Rightarrow> value list \<Rightarrow> Session" where
  "Raw s sql values = s\<lparr>s_sql := s_sql s @ sql @ '' '', s_sqlVars := s_sqlVars s @ values\<rparr>"

text \<open>
  \<open>Exec\<close>, \<open>QueryRow\<close> and \<open>QueryRows\<close> each start with \<open>defer s.Clear()\<close>. The body is
  the function without the deferred call; the function runs the body and then \<open>Clear\<close>.
  Logging is left out.
\<close>

definition Exec_body ::
  "Driver \<Rightarrow> Session \<Rightarrow> call list \<Rightarrow> (go_error + sql_Result) \<times> Session \<times> call list" where
  "Exec_body drv s w =
     (drv_Exec drv w (DB s) (s_sql s) (s_sqlVars s), s,
      w @ [Exec_call (DB s) (s_sql s) (s_sqlVars s)])"

definition Exec ::
  "Driver \<Rightarrow> Session \<Rightarrow> call list \<Rightarrow> (go_error + sql_Result) \<times> Session \<times> call list" where
  "Exec drv s w = (case Exec_body drv s w of (r, s', w') \<Rightarrow> (r, Clear s', w'))"

definition QueryRow_body ::
  "Driver \<Rightarrow> Session \<Rightarrow> call list \<Rightarrow> sql_Row \<times> Session \<times> call list" where
  "QueryRow_body drv s w =
     (drv_QueryRow drv w (SqlDB (s_db s)) (s_sql s) (s_sqlVars s), s,
      w @ [QueryRow_call (SqlDB (s_db s)) (s_sql s) (s_sqlVars s)])"

definition QueryRow ::
  "Driver \<Rightarrow> Session \<Rightarrow> call list \<Rightarrow> sql_Row \<times> Session \<times> call list" where
  "QueryRow drv s w = (case QueryRow_body drv s w of (r, s', w') \<Rightarrow> (r, Clear s', w'))"

definition QueryRows_body ::
  "Driver \<Rightarrow> Session \<Rightarrow> call list \<Rightarrow> (go_error + sql_Rows) \<times> Session \<times> call list" where
  "QueryRows_body drv s w =
     (drv_Query drv w (DB s) (s_sql s) (s_sqlVars s), s,
      w @ [Query_call (DB s) (s_sql s) (s_sqlVars s)])"

definition QueryRows ::
  "Driver \<Rightarrow> Session \<Rightarrow> call list \<Rightarrow> (go_error + sql_Rows) \<times> Session \<times> call list" where
  "QueryRows drv s w = (case QueryRows_body drv s w of (r, s', w') \<Rightarrow> (r, Clear s', w'))"

section \<open>Package session: transactions\<close>

text \<open>
  \<open>Begin\<close> assigns \<open>s.tx\<close> from \<open>s.db.Begin()\<close>, which is nil when it fails. \<open>Commit\<close>
  and \<open>Rollback\<close> call through \<open>s.tx\<close>: a nil handle is a nil dereference. Neither
  resets \<open>s.tx\<close>.
\<close>

definition Begin :: "Driver \<Rightarrow> Session \<Rightarrow> call list \<Rightarrow> go_error option \<times> Session \<times> call list"
where
  "Begin drv s w =
     (case drv_Begin drv w (s_db s) of
        Inl err \<Rightarrow> (Some err, s\<lparr>s_tx := None\<rparr>, w @ [Begin_call (s_db s)])
      | Inr tx \<Rightarrow> (None, s\<lparr>s_tx := Some tx\<rparr>, w @ [Begin_call (s_db s)]))"

definition Commit ::
  "Driver \<Rightarrow> Session \<Rightarrow> call list \<Rightarrow> go_error option outcome \<times> Session \<times> call list" where
  "Commit drv s w =
     (case s_tx s of
        None \<Rightarrow> (Panics NilDereference, s, w)
      | Some tx \<Rightarrow> (Returns (drv_Commit drv w tx), s, w @ [Commit_call tx]))"

definition Rollback ::
  "Driver \<Rightarrow> Session \<Rightarrow> call list \<Rightarrow> go_error option outcome \<times> Session \<times> call list" where
  "Rollback drv s w =
     (case s_tx s of
        None \<Rightarrow> (Panics NilDereference, s, w)
      | Some tx \<Rightarrow> (Returns (drv_Rollback drv w tx), s, w @ [Rollback_call tx]))"

section \<open>Package session: the model and the record operations\<close>

text \<open>
  \<open>Model\<close> parses again when no Schema is bound or when the type of the value is not
  the type of the bound Schema's model.
\<close>

definition Model :: "Session \<Rightarrow> model_ref \<Rightarrow> panic + Session" where
  "Model s val =
     (if s_refTable s = None \<or>
         Some (TypeOf val) \<noteq> map_option (\<lambda>t. TypeOf (sc_Model t)) (s_refTable s) then
        (case Parse val (s_dialect s) of
           Inl p \<Rightarrow> Inl p
         | Inr schema \<Rightarrow> Inr (s\<lparr>s_refTable := Some schema\<rparr>))
      else Inr s)"

definition RefTable :: "Session \<Rightarrow> Schema option" where
  "RefTable s = s_refTable s"

definition Where :: "Session \<Rightarrow> string \<Rightarrow> value list \<Rightarrow> panic + Session" where
  "Where s desc args =
     (case Clause_Set (s_clause s) WHERE (VStr desc # args) of
        Inl p \<Rightarrow> Inl p | Inr c \<Rightarrow> Inr (s\<lparr>s_clause := c\<rparr>))"

definition Limit :: "Session \<Rightarrow> int \<Rightarrow> panic + Session" where
  "Limit s num =
     (case Clause_Set (s_clause s) LIMIT [VInt num] of
        Inl p \<Rightarrow> Inl p | Inr c \<Rightarrow> Inr (s\<lparr>s_clause := c\<rparr>))"

definition OrderBy :: "Session \<Rightarrow> string \<Rightarrow> panic + Session" where
  "OrderBy s desc =
     (case Clause_Set (s_clause s) ORDERBY [VStr desc] of
        Inl p \<Rightarrow> Inl p | Inr c \<Rightarrow> Inr (s\<lparr>s_clause := c\<rparr>))"

text \<open>
  A struct value is the map from its field names to the values stored in them; a field
  outside the domain holds the zero value of its type, so \<open>reflect.New(t).Elem()\<close> is
  the empty map.
\<close>

type_synonym struct_val = "string \<rightharpoonup> value"

text \<open>
  \<open>dest.FieldByName(name).Addr().Interface()\<close> for every column name: the types of the
  pointers handed to \<open>Scan\<close>. A name that is no field gives the zero \<open>reflect.Value\<close>,
  on which \<open>Addr\<close> panics.
\<close>

fun field_pointers :: "struct_type \<Rightarrow> string list \<Rightarrow> panic + go_type list" where
  "field_pointers t [] = Inr []"
| "field_pointers t (name # names) =
     (case find (\<lambda>p. sf_Name p = name) (st_Fields t) of
        None \<Rightarrow> Inl ReflectValueError
      | Some p \<Rightarrow>
          (case field_pointers t names of
             Inl pn \<Rightarrow> Inl pn | Inr tys \<Rightarrow> Inr (sf_Type p # tys)))"

text \<open>\<open>Scan\<close> stores one value through each pointer, in order.\<close>

fun store :: "string list \<Rightarrow> value list \<Rightarrow> struct_val \<Rightarrow> struct_val" where
  "store (name # names) (v # vs) dest = store names vs (dest(name \<mapsto> v))"
| "store names vs dest = dest"

text \<open>
  The loop \<open>for rows.Next()\<close> of \<open>Find\<close>: the first \<open>Scan\<close> error is returned at once;
  when the rows are used up the loop ends and \<open>Find\<close> goes on to \<open>rows.Close()\<close>.
\<close>

fun Find_loop ::
  "Driver \<Rightarrow> struct_type \<Rightarrow> string list \<Rightarrow> value list list \<Rightarrow> struct_val list \<Rightarrow>
     go_error option outcome \<times> struct_val list" where
  "Find_loop drv destType names [] destValue = (Returns None, destValue)"
| "Find_loop drv destType names (row # rest) destValue =
     (case field_pointers destType names of
        Inl p \<Rightarrow> (Panics p, destValue)
      | Inr tys \<Rightarrow>
          (case drv_Scan drv row tys of
             Inl err \<Rightarrow> (Returns (Some err), destValue)
           | Inr vals \<Rightarrow>
               Find_loop drv destType names rest (destValue @ [store names vals Map.empty])))"

text \<open>
  \<open>Find\<close> gets a pointer to a slice of structs: \<open>destType\<close> is the element type and
  \<open>destValue\<close> the slice, returned as \<open>Find\<close> leaves it. The model handed to \<open>Model\<close>
  is the zero value of the element type, a struct.
\<close>

definition Find ::
  "Driver \<Rightarrow> struct_type \<Rightarrow> struct_val list \<Rightarrow> Session \<Rightarrow> call list \<Rightarrow>
     go_error option outcome \<times> struct_val list \<times> Session \<times> call list" where
  "Find drv destType destValue s w =
     (case Model s (StructValue destType) of
        Inl p \<Rightarrow> (Panics p, destValue, s, w)
      | Inr s1 \<Rightarrow>
     (case RefTable s1 of
        None \<Rightarrow> (Panics NilDereference, destValue, s1, w)
      | Some table \<Rightarrow>
     (case Clause_Set (s_clause s1) SELECT [VStr (sc_Name table), VStrs (sc_FieldNames table)] of
        Inl p \<Rightarrow> (Panics p, destValue, s1, w)
      | Inr c \<Rightarrow>
     (case Clause_Build c [SELECT, WHERE, ORDERBY, LIMIT] of
        ((sql, vars), c') \<Rightarrow>
     (case QueryRows drv (Raw (s1\<lparr>s_clause := c'\<rparr>) sql vars) w of
        (Inl err, s2, w2) \<Rightarrow> (Returns (Some err), destValue, s2, w2)
      | (Inr rows, s2, w2) \<Rightarrow>
     (case Find_loop drv destType (sc_FieldNames table) (rows_data rows) destValue of
        (Returns None, destValue') \<Rightarrow> (Returns (rows_Close rows), destValue', s2, w2)
      | (r, destValue') \<Rightarrow> (r, destValue', s2, w2)))))))"

text \<open>
  The argument of \<open>First\<close>: a pointer to a struct (with what the struct holds), a nil
  pointer, or a struct passed by value. \<open>destType\<close> is the struct type. On a nil pointer
  \<open>reflect.Indirect\<close> gives the zero Value and \<open>dest.Type()\<close> panics before anything
  else is done; a struct passed by value is not addressable, and \<open>dest.Set\<close> panics.
  \<open>First\<close> returns its argument as it is afterwards.
\<close>

datatype dest_ref = DestPointer struct_val | DestNilPointer | DestStruct struct_val

definition First ::
  "Driver \<Rightarrow> struct_type \<Rightarrow> dest_ref \<Rightarrow> Session \<Rightarrow> call list \<Rightarrow>
     go_error option outcome \<times> dest_ref \<times> Session \<times> call list" where
  "First drv destType val s w =
     (if val = DestNilPointer then (Panics ReflectValueError, val, s, w)
      else
     (case Limit s 1 of
        Inl p \<Rightarrow> (Panics p, val, s, w)
      | Inr s1 \<Rightarrow>
     (case Find drv destType [] s1 w of
        (Panics p, destSlice, s2, w2) \<Rightarrow> (Panics p, val, s2, w2)
      | (Returns (Some err), destSlice, s2, w2) \<Rightarrow> (Returns (Some err), val, s2, w2)
      | (Returns None, destSlice, s2, w2) \<Rightarrow>
          if length destSlice = 0 then (Returns (Some (ErrorsNew ''NOT FOUND'')), val, s2, w2)
          else (case val of
                  DestPointer dest \<Rightarrow> (Returns None, DestPointer (destSlice ! 0), s2, w2)
                | _ \<Rightarrow> (Panics ReflectUnaddressable, val, s2, w2)))))"

text \<open>
  The loop of \<open>Update\<close> that pairs keys and values: \<open>m[kv[i].(string)] = kv[i+1]\<close> for
  \<open>i = 0, 2, 4, ...\<close>. The key's type assertion is evaluated before \<open>kv[i+1]\<close>. An
  assignment to a key that is already there replaces its value; the model enumerates the
  map in the order of first assignment (Go fixes no order).
\<close>

function Update_loop :: "value list \<Rightarrow> nat \<Rightarrow> (string \<times> value) list \<Rightarrow> panic + (string \<times> value) list"
where
  "Update_loop kv i m =
     (if i < length kv then
        (case assert_string (kv ! i) of
           Inl p \<Rightarrow> Inl p
         | Inr k \<Rightarrow>
             (case index kv (i + 1) of
                Inl p \<Rightarrow> Inl p
              | Inr v \<Rightarrow> Update_loop kv (i + 2) (AList.update k v m)))
      else Inr m)"
  by pat_completeness auto
termination
  by (relation "measure (\<lambda>(kv, i, m). length kv - i)") auto

declare Update_loop.simps [simp del]

definition Update ::
  "Driver \<Rightarrow> value list \<Rightarrow> Session \<Rightarrow> call list \<Rightarrow>
     (int \<times> go_error option) outcome \<times> Session \<times> call list" where
  "Update drv kv s w =
     (case index kv 0 of
        Inl p \<Rightarrow> (Panics p, s, w)
      | Inr kv0 \<Rightarrow>
     (case (case assert_map kv0 of Inr m \<Rightarrow> Inr m | Inl p \<Rightarrow> Update_loop kv 0 []) of
        Inl p \<Rightarrow> (Panics p, s, w)
      | Inr m \<Rightarrow>
     (case RefTable s of
        None \<Rightarrow> (Panics NilDereference, s, w)
      | Some table \<Rightarrow>
     (case Clause_Set (s_clause s) UPDATE [VStr (sc_Name table), VMap m] of
        Inl p \<Rightarrow> (Panics p, s, w)
      | Inr c \<Rightarrow>
     (case Clause_Build c [UPDATE, WHERE] of
        ((sql, vars), c') \<Rightarrow>
     (case Exec drv (Raw (s\<lparr>s_clause := c'\<rparr>) sql vars) w of
        (Inl err, s2, w2) \<Rightarrow> (Returns (0, Some err), s2, w2)
      | (Inr result, s2, w2) \<Rightarrow> (Returns result, s2, w2)))))))"

section \<open>Package geeorm: the Engine\<close>

record Engine =
  e_db :: db_handle
  e_dialect :: Dialect

definition NewSession :: "Engine \<Rightarrow> Session" where
  "NewSession e = New (e_db e) (e_dialect e)"

text \<open>
  A \<open>TxFunc\<close> gets the Session (a pointer: what it does to the Session is seen by
  \<open>Transaction\<close>), reaches the database through it, and returns a result and an error,
  or panics.
\<close>

type_synonym TxFunc =
  "Session \<Rightarrow> call list \<Rightarrow> (value \<times> go_error option) outcome \<times> Session \<times> call list"

text \<open>
  \<open>Transaction\<close>: the deferred function runs after \<open>f\<close> has returned or panicked. A
  panic inside the deferred function (a nil \<open>s.tx\<close>) takes the place of whatever was
  being returned.
\<close>

definition Transaction ::
  "Driver \<Rightarrow> Engine \<Rightarrow> TxFunc \<Rightarrow> call list \<Rightarrow> (value \<times> go_error option) outcome \<times> call list" where
  "Transaction drv e f w =
     (case Begin drv (NewSession e) w of
        (Some err, s1, w1) \<Rightarrow> (Returns (VNil, Some err), w1)
      | (None, s1, w1) \<Rightarrow>
     (case f s1 w1 of
        (Panics p, s2, w2) \<Rightarrow>
          (case Rollback drv s2 w2 of
             (Panics p', s3, w3) \<Rightarrow> (Panics p', w3)
           | (Returns r, s3, w3) \<Rightarrow> (Panics p, w3))
      | (Returns (result, Some err), s2, w2) \<Rightarrow>
          (case Rollback drv s2 w2 of
             (Panics p', s3, w3) \<Rightarrow> (Panics p', w3)
           | (Returns r, s3, w3) \<Rightarrow> (Returns (result, Some err), w3))
      | (Returns (result, None), s2, w2) \<Rightarrow>
          (case Commit drv s2 w2 of
             (Panics p', s3, w3) \<Rightarrow> (Panics p', w3)
           | (Returns err, s3, w3) \<Rightarrow> (Returns (result, err), w3))))"

text \<open>
  \<open>difference\<close>: the first loop marks every string of \<open>b\<close> in the map \<open>m\<close>, the second
  appends to \<open>diff\<close> every string of \<open>a\<close> that has no entry in \<open>m\<close>.
\<close>

fun difference_mark :: "string list \<Rightarrow> (string \<rightharpoonup> bool) \<Rightarrow> (string \<rightharpoonup> bool)" where
  "difference_mark [] m = m"
| "difference_mark (s # b) m = difference_mark b (m(s \<mapsto> True))"

fun difference_collect :: "string list \<Rightarrow> (string \<rightharpoonup> bool) \<Rightarrow> string list \<Rightarrow> string list" where
  "difference_collect [] m diff = diff"
| "difference_collect (s # a) m diff =
     (case m s of None \<Rightarrow> difference_collect a m (diff @ [s])
      | Some ok \<Rightarrow> difference_collect a m diff)"

definition difference :: "string list \<Rightarrow> string list \<Rightarrow> string list" where
  "difference a b = difference_collect a (difference_mark b Map.empty) []"

text \<open>
  The column diff of \<open>Migrate\<close>: \<open>table\<close> is the Schema of the model, \<open>columns\<close> the
  names \<open>rows.Columns()\<close> gives for the live table; the result is \<open>(addCols, delCols)\<close>.
\<close>

definition Migrate_diff :: "Schema \<Rightarrow> string list \<Rightarrow> string list \<times> string list" where
  "Migrate_diff table columns =
     (let addCols = difference (sc_FieldNames table) columns;
          delCols = difference columns (sc_FieldNames table)
      in (addCols, delCols))"

section \<open>Auxiliary notions for the statements\<close>

text \<open>The fields of a struct that \<open>Parse\<close> turns into columns.\<close>

definition column :: "struct_field \<Rightarrow> bool" where
  "column p \<longleftrightarrow> \<not> sf_Anonymous p \<and> sf_Exported p"

text \<open>The dialect has a data type for every field that becomes a column.\<close>

definition mapped :: "Dialect \<Rightarrow> struct_field list \<Rightarrow> bool" where
  "mapped d ps \<longleftrightarrow> (\<forall>p \<in> set ps. column p \<longrightarrow> (\<exists>ty. DataTypeOf d (sf_Type p) = Inr ty))"

text \<open>
  The name index of a Schema: its keys are the column names, and each key leads to a
  Field of the Schema with that name.
\<close>

definition fieldMap_ok :: "Schema \<Rightarrow> bool" where
  "fieldMap_ok s \<longleftrightarrow>
     dom (sc_fieldMap s) = set (sc_FieldNames s) \<and>
     (\<forall>n f. sc_fieldMap s n = Some f \<longrightarrow> f \<in> set (sc_Fields s) \<and> f_Name f = n)"

text \<open>
  The only write to \<open>s.refTable\<close> is in \<open>Model\<close>, which stores what \<open>Parse\<close> returns
  for the model and the Session's dialect: a Session holds no Schema or the Schema parsed
  from the Schema's own model.
\<close>

definition Session_ok :: "Session \<Rightarrow> bool" where
  "Session_ok s \<longleftrightarrow>
     (case s_refTable s of None \<Rightarrow> True | Some t \<Rightarrow> Parse (sc_Model t) (s_dialect s) = Inr t)"

text \<open>
  The Clause after calls of \<open>testSelect\<close> that set the kinds in \<open>K\<close>, started from \<open>c\<close>.
\<close>

definition testSelect_Clause :: "Clause \<Rightarrow> ctype set \<Rightarrow> Clause" where
  "testSelect_Clause c K =
     c\<lparr>c_sql := (\<lambda>k. if k \<in> K then
                    [LIMIT \<mapsto> ''LIMIT ?'', SELECT \<mapsto> ''SELECT * FROM User'',
                     WHERE \<mapsto> ''WHERE Name = ?'', ORDERBY \<mapsto> ''ORDER BY Age DESC''] k
                  else c_sql c k),
       c_sqlVars := (\<lambda>k. if k \<in> K then
                    [LIMIT \<mapsto> [VInt 3], SELECT \<mapsto> [],
                     WHERE \<mapsto> [VStr ''Tom''], ORDERBY \<mapsto> []] k
                  else c_sqlVars c k)\<rparr>"

section \<open>The model type of the tests\<close>

text \<open>
  \<open>type User struct { Name string `geeorm:"PRIMARY KEY"`; Age int }\<close>, and the Schema
  that \<open>Parse\<close> derives from a \<open>User\<close> value under the sqlite3 dialect.
\<close>

definition User :: struct_type where
  "User = \<lparr>st_Name = ''User'',
           st_Fields =
             [\<lparr>sf_Name = ''Name'', sf_Anonymous = False, sf_Exported = True,
               sf_Type = \<lparr>type_Name = ''string'', type_Kind = reflect_String, type_is_Time = False\<rparr>,
               sf_geeorm = Some ''PRIMARY KEY''\<rparr>,
              \<lparr>sf_Name = ''Age'', sf_Anonymous = False, sf_Exported = True,
               sf_Type = \<lparr>type_Name = ''int'', type_Kind = reflect_Int, type_is_Time = False\<rparr>,
               sf_geeorm = None\<rparr>]\<rparr>"

definition User_Schema :: Schema where
  "User_Schema =
     \<lparr>sc_Model = StructValue User, sc_Name = ''User'',
      sc_Fields = [\<lparr>f_Name = ''Name'', f_Type = ''text'', f_Tag = ''PRIMARY KEY''\<rparr>,
                   \<lparr>f_Name = ''Age'', f_Type = ''integer'', f_Tag = []\<rparr>],
      sc_FieldNames = [''Name'', ''Age''],
      sc_fieldMap = [''Name'' \<mapsto> \<lparr>f_Name = ''Name'', f_Type = ''text'', f_Tag = ''PRIMARY KEY''\<rparr>,
                     ''Age'' \<mapsto> \<lparr>f_Name = ''Age'', f_Type = ''integer'', f_Tag = []\<rparr>]\<rparr>"

text \<open>
  A struct with an embedded \<open>User\<close>, an unexported field of a channel type, and a
  \<open>time.Time\<close> field.
\<close>

definition Member :: struct_type where
  "Member = \<lparr>st_Name = ''Member'',
     st_Fields =
       [\<lparr>sf_Name = ''User'', sf_Anonymous = True, sf_Exported = True,
         sf_Type = \<lparr>type_Name = ''User'', type_Kind = reflect_Struct, type_is_Time = False\<rparr>,
         sf_geeorm = None\<rparr>,
        \<lparr>sf_Name = ''Id'', sf_Anonymous = False, sf_Exported = True,
         sf_Type = \<lparr>type_Name = ''int64'', type_Kind = reflect_Int64, type_is_Time = False\<rparr>,
         sf_geeorm = Some ''PRIMARY KEY''\<rparr>,
        \<lparr>sf_Name = ''secret'', sf_Anonymous = False, sf_Exported = False,
         sf_Type = \<lparr>type_Name = [], type_Kind = reflect_Chan, type_is_Time = False\<rparr>,
         sf_geeorm = None\<rparr>,
        \<lparr>sf_Name = ''Joined'', sf_Anonymous = False, sf_Exported = True,
         sf_Type = \<lparr>type_Name = ''Time'', type_Kind = reflect_Struct, type_is_Time = True\<rparr>,
         sf_geeorm = None\<rparr>]\<rparr>"

text \<open>A struct with one exported field, whose type is the struct \<open>User\<close>.\<close>

definition Order :: struct_type where
  "Order = \<lparr>st_Name = ''Order'',
     st_Fields =
       [\<lparr>sf_Name = ''Owner'', sf_Anonymous = False, sf_Exported = True,
         sf_Type = \<lparr>type_Name = ''User'', type_Kind = reflect_Struct, type_is_Time = False\<rparr>,
         sf_geeorm = None\<rparr>]\<rparr>"

section \<open>A driver for the worked examples\<close>

text \<open>
  \<open>stub_Driver rows\<close> answers every \<open>Exec\<close> with one row affected, every \<open>Query\<close> with
  the cursor \<open>rows\<close>, opens a fresh transaction handle on \<open>Begin\<close>, and lets \<open>Commit\<close>,
  \<open>Rollback\<close> and \<open>Scan\<close> succeed (\<open>Scan\<close> when the row has one value per destination).
\<close>

definition stub_Driver :: "sql_Rows \<Rightarrow> Driver" where
  "stub_Driver rows =
     \<lparr>drv_Exec = (\<lambda>w c q a. Inr (1, None)),
      drv_Query = (\<lambda>w c q a. Inr rows),
      drv_QueryRow = (\<lambda>w c q a. Inr []),
      drv_Begin = (\<lambda>w db. Inr (length w)),
      drv_Commit = (\<lambda>w tx. None),
      drv_Rollback = (\<lambda>w tx. None),
      drv_Scan = (\<lambda>row tys. if length row = length tys then Inr row
                               else Inl (DriverError ''sql: wrong number of destination arguments''))\<rparr>"

text \<open>
  Callbacks for \<open>Transaction\<close>: one that executes a raw statement through the Session
  and returns the rows affected or the error, one that calls \<open>Update\<close>, and one that
  calls \<open>Begin\<close> on the Session it was given.
\<close>

definition exec_callback :: "Driver \<Rightarrow> string \<Rightarrow> value list \<Rightarrow> TxFunc" where
  "exec_callback drv q a s w =
     (case Exec drv (Raw s q a) w of
        (Inl err, s', w') \<Rightarrow> (Returns (VNil, Some err), s', w')
      | (Inr res, s', w') \<Rightarrow> (Returns (VInt (fst res), snd res), s', w'))"

definition update_callback :: "Driver \<Rightarrow> value list \<Rightarrow> TxFunc" where
  "update_callback drv kv s w =
     (case Update drv kv s w of
        (Panics p, s', w') \<Rightarrow> (Panics p, s', w')
      | (Returns res, s', w') \<Rightarrow> (Returns (VInt (fst res), snd res), s', w'))"

definition begin_callback :: "Driver \<Rightarrow> TxFunc" where
  "begin_callback drv s w =
     (case Begin drv s w of (err, s', w') \<Rightarrow> (Returns (VNil, err), s', w'))"

text \<open>A cursor without rows.\<close>

definition no_rows :: sql_Rows where
  "no_rows = \<lparr>rows_Columns = [], rows_data = [], rows_Close = None\<rparr>"

section \<open>Statement routing\<close>

text \<open>
  C1: with the transaction handle set, every statement execution is to go through the
  handle. \<open>Exec\<close> and \<open>QueryRows\<close> take their target from \<open>DB\<close> and do; \<open>QueryRow\<close>
  calls \<open>s.db\<close> itself. On a Session with handle 7 on connection 0, \<open>QueryRow\<close> reaches
  the connection, while \<open>Exec\<close> and \<open>QueryRows\<close> reach the transaction.
\<close>

theorem QueryRow_bypasses_tx:
  "snd (snd (QueryRow drv
       (Raw ((New 0 sqlite3)\<lparr>s_tx := Some 7\<rparr>) ''SELECT count(*) FROM User'' []) []))
     = [QueryRow_call (SqlDB 0) ''SELECT count(*) FROM User '' []] \<and>
   snd (snd (Exec drv (Raw ((New 0 sqlite3)\<lparr>s_tx := Some 7\<rparr>) ''DELETE FROM User'' []) []))
     = [Exec_call (SqlTx 7) ''DELETE FROM User '' []] \<and>
   snd (snd (QueryRows drv (Raw ((New 0 sqlite3)\<lparr>s_tx := Some 7\<rparr>) ''SELECT * FROM User'' []) []))
     = [Query_call (SqlTx 7) ''SELECT * FROM User '' []]"
  by (simp add: QueryRow_def QueryRow_body_def Exec_def Exec_body_def QueryRows_def
      QueryRows_body_def Raw_def New_def DB_def)

section \<open>The column diff of Migrate\<close>

lemma difference_mark_None: "difference_mark b m s = None \<longleftrightarrow> m s = None \<and> s \<notin> set b"
  by (induction b arbitrary: m) auto

lemma difference_collect_filter:
  "difference_collect a m diff = diff @ filter (\<lambda>s. m s = None) a"
  by (induction a arbitrary: diff) (auto split: option.splits)

lemma difference_filter: "difference a b = filter (\<lambda>s. s \<notin> set b) a"
  by (simp add: difference_def difference_collect_filter difference_mark_None)

text \<open>
  C2: \<open>difference a b\<close> is the list of the elements of \<open>a\<close> that are not in \<open>b\<close>, in the
  order of \<open>a\<close>; the diff of \<open>Migrate\<close> has as \<open>addCols\<close> the declared names that are not
  live and as \<open>delCols\<close> the live names that are not declared, each in the order of its
  first operand.
\<close>

theorem Migrate_diff_is_difference:
  "difference a b = filter (\<lambda>s. s \<notin> set b) a \<and>
   Migrate_diff table columns =
     (filter (\<lambda>n. n \<notin> set columns) (sc_FieldNames table),
      filter (\<lambda>n. n \<notin> set (sc_FieldNames table)) columns)"
  by (simp add: Migrate_diff_def difference_filter)

theorem Migrate_diff_witness:
  "Migrate_diff
     \<lparr>sc_Model = Pointer \<lparr>st_Name = ''User'', st_Fields = []\<rparr>,
      sc_Name = ''User'', sc_Fields = [], sc_FieldNames = [''Name'', ''Age'', ''Email''],
      sc_fieldMap = Map.empty\<rparr> [''Id'', ''Age'', ''Nick'']
     = ([''Name'', ''Email''], [''Id'', ''Nick''])"
  using Migrate_diff_is_difference
    [of "[]" "[]"
        "\<lparr>sc_Model = Pointer \<lparr>st_Name = ''User'', st_Fields = []\<rparr>,
          sc_Name = ''User'', sc_Fields = [], sc_FieldNames = [''Name'', ''Age'', ''Email''],
          sc_fieldMap = Map.empty\<rparr>" "[''Id'', ''Age'', ''Nick'']"]
  by simp

section \<open>The Session after an execution\<close>

text \<open>
  C3: \<open>Exec\<close>, \<open>QueryRow\<close> and \<open>QueryRows\<close> leave the Session with an empty statement
  buffer, an empty parameter list and the empty Clause, whatever the driver answers:
  a result or an error.
\<close>

theorem execution_clears_Session:
  "(case Exec drv s w of (r, s', w') \<Rightarrow>
      s_sql s' = [] \<and> s_sqlVars s' = [] \<and> s_clause s' = Clause_zero) \<and>
   (case QueryRow drv s w of (r, s', w') \<Rightarrow>
      s_sql s' = [] \<and> s_sqlVars s' = [] \<and> s_clause s' = Clause_zero) \<and>
   (case QueryRows drv s w of (r, s', w') \<Rightarrow>
      s_sql s' = [] \<and> s_sqlVars s' = [] \<and> s_clause s' = Clause_zero)"
  by (simp add: Exec_def Exec_body_def QueryRow_def QueryRow_body_def QueryRows_def
      QueryRows_body_def Clear_def)

section \<open>Transaction\<close>

lemma Raw_keeps_tx: "s_tx (Raw s q a) = s_tx s"
  by (simp add: Raw_def)

lemma Clear_keeps_tx: "s_tx (Clear s) = s_tx s"
  by (simp add: Clear_def)

lemma Exec_keeps_tx: "s_tx (fst (snd (Exec drv s w))) = s_tx s"
  by (simp add: Exec_def Exec_body_def Clear_def)

lemma QueryRow_keeps_tx: "s_tx (fst (snd (QueryRow drv s w))) = s_tx s"
  by (simp add: QueryRow_def QueryRow_body_def Clear_def)

lemma QueryRows_keeps_tx: "s_tx (fst (snd (QueryRows drv s w))) = s_tx s"
  by (simp add: QueryRows_def QueryRows_body_def Clear_def)

lemma Model_keeps_tx: "Model s val = Inr s' \<Longrightarrow> s_tx s' = s_tx s"
  by (auto simp: Model_def split: if_splits sum.splits)

lemma Limit_keeps_tx: "Limit s n = Inr s' \<Longrightarrow> s_tx s' = s_tx s"
  by (auto simp: Limit_def split: sum.splits)

lemma Where_keeps_tx: "Where s desc args = Inr s' \<Longrightarrow> s_tx s' = s_tx s"
  by (auto simp: Where_def split: sum.splits)

lemma OrderBy_keeps_tx: "OrderBy s desc = Inr s' \<Longrightarrow> s_tx s' = s_tx s"
  by (auto simp: OrderBy_def split: sum.splits)

lemma Commit_keeps_tx: "s_tx (fst (snd (Commit drv s w))) = s_tx s"
  by (simp add: Commit_def split: option.splits)

lemma Rollback_keeps_tx: "s_tx (fst (snd (Rollback drv s w))) = s_tx s"
  by (simp add: Rollback_def split: option.splits)

lemma Find_keeps_tx: "s_tx (fst (snd (snd (Find drv destType destValue s w)))) = s_tx s"
proof (cases "Model s (StructValue destType)")
  case (Inl p)
  then show ?thesis by (simp add: Find_def)
next
  case (Inr s1)
  then have tx1: "s_tx s1 = s_tx s" by (rule Model_keeps_tx)
  show ?thesis
  proof (cases "RefTable s1")
    case None
    with Inr tx1 show ?thesis by (simp add: Find_def)
  next
    case (Some table)
    show ?thesis
    proof (cases "Clause_Set (s_clause s1) SELECT [VStr (sc_Name table), VStrs (sc_FieldNames table)]")
      case (Inl p)
      with Inr Some tx1 show ?thesis by (simp add: Find_def)
    next
      case c: (Inr c)
      obtain sql vars c' where b: "Clause_Build c [SELECT, WHERE, ORDERBY, LIMIT] = ((sql, vars), c')"
        by (metis prod.collapse)
      define s3 where "s3 = Raw (s1\<lparr>s_clause := c'\<rparr>) sql vars"
      have tx3: "s_tx s3 = s_tx s" by (simp add: s3_def Raw_def tx1)
      obtain r s2 w2 where q: "QueryRows drv s3 w = (r, s2, w2)" by (metis prod.collapse)
      from QueryRows_keeps_tx[of drv s3 w] q tx3 have tx2: "s_tx s2 = s_tx s" by simp
      show ?thesis
        using Inr Some c b q tx2
        by (simp add: Find_def s3_def[symmetric] split: sum.splits prod.splits outcome.splits option.splits)
    qed
  qed
qed

lemma First_keeps_tx: "s_tx (fst (snd (snd (First drv destType val s w)))) = s_tx s"
proof (cases "val = DestNilPointer")
  case True
  then show ?thesis by (simp add: First_def)
next
  case False
  show ?thesis
  proof (cases "Limit s 1")
    case (Inl p)
    with False show ?thesis by (simp add: First_def)
  next
    case (Inr s1)
    then have tx1: "s_tx s1 = s_tx s" by (rule Limit_keeps_tx)
    obtain r ds s2 w2 where f: "Find drv destType [] s1 w = (r, ds, s2, w2)"
      by (metis prod.collapse)
    from Find_keeps_tx[of drv destType "[]" s1 w] f tx1 have "s_tx s2 = s_tx s" by simp
    with False Inr f show ?thesis
      by (simp add: First_def split: outcome.splits option.splits dest_ref.splits)
  qed
qed

lemma Update_keeps_tx: "s_tx (fst (snd (Update drv kv s w))) = s_tx s"
proof -
  have e: "s_tx (fst (snd (Exec drv (Raw (s\<lparr>s_clause := c\<rparr>) q a) w))) = s_tx s" for c q a
    by (simp add: Exec_keeps_tx Raw_def)
  show ?thesis
    unfolding Update_def
    by (auto split: sum.splits option.splits prod.splits simp: e dest: arg_cong[where f="\<lambda>x. s_tx (fst (snd x))"])
qed

text \<open>
  A callback that calls \<open>Begin\<close> on the Session replaces the handle that \<open>Transaction\<close>
  opened: handle 0 is opened by \<open>Transaction\<close>, handle 1 by the callback, and the only
  closing call is the \<open>Commit\<close> of handle 1. Handle 0 is closed by nobody.
\<close>

theorem Transaction_nested_Begin_counterexample:
  "Transaction (stub_Driver no_rows) \<lparr>e_db = 0, e_dialect = sqlite3\<rparr>
       (begin_callback (stub_Driver no_rows)) []
     = (Returns (VNil, None), [Begin_call 0, Begin_call 0, Commit_call 1])"
  by (simp add: Transaction_def Begin_def NewSession_def New_def Commit_def begin_callback_def
      stub_Driver_def)

text \<open>
  C4 (amended): when \<open>Begin\<close> fails, \<open>Transaction\<close> returns its error and \<open>f\<close> is not run.
  When \<open>Begin\<close> opens the handle \<open>h\<close> and \<open>f\<close> leaves that handle in the Session,
  \<open>Transaction\<close> adds exactly one call to those of \<open>f\<close>: a \<open>Rollback\<close> of \<open>h\<close> when \<open>f\<close>
  panicked, after which the same panic goes on; a \<open>Rollback\<close> of \<open>h\<close> when \<open>f\<close> returned
  an error, which is returned; a \<open>Commit\<close> of \<open>h\<close> otherwise, whose result is the error
  returned. Every operation of the Session but \<open>Begin\<close> leaves the handle in place:
  \<open>Raw\<close>, \<open>Clear\<close>, \<open>Exec\<close>, \<open>QueryRow\<close>, \<open>QueryRows\<close>, \<open>Model\<close>, \<open>Where\<close>, \<open>Limit\<close>,
  \<open>OrderBy\<close>, \<open>Find\<close>, \<open>First\<close>, \<open>Update\<close>, \<open>Commit\<close> and \<open>Rollback\<close>.
\<close>

theorem Transaction_closes_once:
  "(drv_Begin drv w (e_db e) = Inl err \<longrightarrow>
      Transaction drv e f w = (Returns (VNil, Some err), w @ [Begin_call (e_db e)])) \<and>
   (drv_Begin drv w (e_db e) = Inr h \<and>
    f ((NewSession e)\<lparr>s_tx := Some h\<rparr>) (w @ [Begin_call (e_db e)]) = (r, s2, w2) \<and>
    s_tx s2 = Some h \<longrightarrow>
      Transaction drv e f w =
        (case r of
           Panics p \<Rightarrow> (Panics p, w2 @ [Rollback_call h])
         | Returns (v, Some fail) \<Rightarrow> (Returns (v, Some fail), w2 @ [Rollback_call h])
         | Returns (v, None) \<Rightarrow> (Returns (v, drv_Commit drv w2 h), w2 @ [Commit_call h]))) \<and>
   s_tx (Raw s q a) = s_tx s \<and>
   s_tx (Clear s) = s_tx s \<and>
   s_tx (fst (snd (Exec drv' s w'))) = s_tx s \<and>
   s_tx (fst (snd (QueryRow drv' s w'))) = s_tx s \<and>
   s_tx (fst (snd (QueryRows drv' s w'))) = s_tx s \<and>
   (case Model s val of Inl p \<Rightarrow> True | Inr s' \<Rightarrow> s_tx s' = s_tx s) \<and>
   (case Where s desc args of Inl p \<Rightarrow> True | Inr s' \<Rightarrow> s_tx s' = s_tx s) \<and>
   (case Limit s num of Inl p \<Rightarrow> True | Inr s' \<Rightarrow> s_tx s' = s_tx s) \<and>
   (case OrderBy s desc of Inl p \<Rightarrow> True | Inr s' \<Rightarrow> s_tx s' = s_tx s) \<and>
   s_tx (fst (snd (snd (Find drv' destType destValue s w')))) = s_tx s \<and>
   s_tx (fst (snd (snd (First drv' destType dest s w')))) = s_tx s \<and>
   s_tx (fst (snd (Update drv' kv s w'))) = s_tx s \<and>
   s_tx (fst (snd (Commit drv' s w'))) = s_tx s \<and>
   s_tx (fst (snd (Rollback drv' s w'))) = s_tx s"
proof -
  have begin_fails: "drv_Begin drv w (e_db e) = Inl err \<longrightarrow>
      Transaction drv e f w = (Returns (VNil, Some err), w @ [Begin_call (e_db e)])"
    by (auto simp: Transaction_def Begin_def NewSession_def New_def)
  have closes: "drv_Begin drv w (e_db e) = Inr h \<and>
    f ((NewSession e)\<lparr>s_tx := Some h\<rparr>) (w @ [Begin_call (e_db e)]) = (r, s2, w2) \<and>
    s_tx s2 = Some h \<longrightarrow>
      Transaction drv e f w =
        (case r of
           Panics p \<Rightarrow> (Panics p, w2 @ [Rollback_call h])
         | Returns (v, Some fail) \<Rightarrow> (Returns (v, Some fail), w2 @ [Rollback_call h])
         | Returns (v, None) \<Rightarrow> (Returns (v, drv_Commit drv w2 h), w2 @ [Commit_call h]))"
    by (auto simp: Transaction_def Begin_def NewSession_def New_def Rollback_def Commit_def
        split: outcome.splits option.splits prod.splits)
  have model: "case Model s val of Inl p \<Rightarrow> True | Inr s' \<Rightarrow> s_tx s' = s_tx s"
    by (simp add: Model_keeps_tx split: sum.splits)
  have "where": "case Where s desc args of Inl p \<Rightarrow> True | Inr s' \<Rightarrow> s_tx s' = s_tx s"
    by (simp add: Where_keeps_tx split: sum.splits)
  have limit: "case Limit s num of Inl p \<Rightarrow> True | Inr s' \<Rightarrow> s_tx s' = s_tx s"
    by (simp add: Limit_keeps_tx split: sum.splits)
  have orderBy: "case OrderBy s desc of Inl p \<Rightarrow> True | Inr s' \<Rightarrow> s_tx s' = s_tx s"
    by (simp add: OrderBy_keeps_tx split: sum.splits)
  show ?thesis
    by (intro conjI begin_fails closes model "where" limit orderBy Raw_keeps_tx Clear_keeps_tx
        Exec_keeps_tx QueryRow_keeps_tx QueryRows_keeps_tx Find_keeps_tx First_keeps_tx
        Update_keeps_tx Commit_keeps_tx Rollback_keeps_tx)
qed

theorem Transaction_closes_once_witness:
  "Transaction ((stub_Driver no_rows)\<lparr>drv_Begin := (\<lambda>w db. Inl (DriverError ''database is locked''))\<rparr>)
       \<lparr>e_db = 0, e_dialect = sqlite3\<rparr>
       (exec_callback (stub_Driver no_rows) ''DELETE FROM User'' []) []
     = (Returns (VNil, Some (DriverError ''database is locked'')), [Begin_call 0]) \<and>
   Transaction (stub_Driver no_rows) \<lparr>e_db = 0, e_dialect = sqlite3\<rparr>
       (exec_callback (stub_Driver no_rows) ''DELETE FROM User'' []) []
     = (Returns (VInt 1, None),
        [Begin_call 0, Exec_call (SqlTx 0) ''DELETE FROM User '' [], Commit_call 0]) \<and>
   Transaction (stub_Driver no_rows) \<lparr>e_db = 0, e_dialect = sqlite3\<rparr>
       (exec_callback ((stub_Driver no_rows)\<lparr>drv_Exec := (\<lambda>w c q a. Inl (DriverError ''no such table''))\<rparr>)
          ''DELETE FROM User'' []) []
     = (Returns (VNil, Some (DriverError ''no such table'')),
        [Begin_call 0, Exec_call (SqlTx 0) ''DELETE FROM User '' [], Rollback_call 0]) \<and>
   Transaction (stub_Driver no_rows) \<lparr>e_db = 0, e_dialect = sqlite3\<rparr>
       (update_callback (stub_Driver no_rows) []) []
     = (Panics (IndexOutOfRange 0 0), [Begin_call 0, Rollback_call 0])"
proof -
  let ?drv = "stub_Driver no_rows"
  let ?bad = "(stub_Driver no_rows)\<lparr>drv_Exec := (\<lambda>w c q a. Inl (DriverError ''no such table''))\<rparr>"
  let ?e = "\<lparr>e_db = 0, e_dialect = sqlite3\<rparr>"
  let ?s1 = "(NewSession ?e)\<lparr>s_tx := Some 0\<rparr>"
  have b: "drv_Begin ?drv [] (e_db ?e) = Inr 0" by (simp add: stub_Driver_def)
  have c1: "Transaction ((stub_Driver no_rows)\<lparr>drv_Begin := (\<lambda>w db. Inl (DriverError ''database is locked''))\<rparr>)
       ?e (exec_callback ?drv ''DELETE FROM User'' []) []
     = (Returns (VNil, Some (DriverError ''database is locked'')), [Begin_call 0])"
    using Transaction_closes_once
      [of "(stub_Driver no_rows)\<lparr>drv_Begin := (\<lambda>w db. Inl (DriverError ''database is locked''))\<rparr>"
          "[]" ?e "DriverError ''database is locked''"]
    by (simp add: stub_Driver_def)
  have f2: "exec_callback ?drv ''DELETE FROM User'' [] ?s1 ([] @ [Begin_call (e_db ?e)])
      = (Returns (VInt 1, None), Clear (Raw ?s1 ''DELETE FROM User'' []),
         [Begin_call 0, Exec_call (SqlTx 0) ''DELETE FROM User '' []])"
    by (simp add: exec_callback_def Exec_def Exec_body_def stub_Driver_def DB_def Raw_def
        NewSession_def New_def)
  have t2: "s_tx (Clear (Raw ?s1 ''DELETE FROM User'' [])) = Some 0"
    by (simp add: Clear_def Raw_def)
  have c2: "Transaction ?drv ?e (exec_callback ?drv ''DELETE FROM User'' []) []
     = (Returns (VInt 1, None),
        [Begin_call 0, Exec_call (SqlTx 0) ''DELETE FROM User '' [], Commit_call 0])"
    using Transaction_closes_once
      [of ?drv "[]" ?e _ "exec_callback ?drv ''DELETE FROM User'' []" 0 "Returns (VInt 1, None)"
          "Clear (Raw ?s1 ''DELETE FROM User'' [])"
          "[Begin_call 0, Exec_call (SqlTx 0) ''DELETE FROM User '' []]"] b f2 t2
    by (simp add: stub_Driver_def)
  have f3: "exec_callback ?bad ''DELETE FROM User'' [] ?s1 ([] @ [Begin_call (e_db ?e)])
      = (Returns (VNil, Some (DriverError ''no such table'')), Clear (Raw ?s1 ''DELETE FROM User'' []),
         [Begin_call 0, Exec_call (SqlTx 0) ''DELETE FROM User '' []])"
    by (simp add: exec_callback_def Exec_def Exec_body_def stub_Driver_def DB_def Raw_def
        NewSession_def New_def)
  have c3: "Transaction ?drv ?e (exec_callback ?bad ''DELETE FROM User'' []) []
     = (Returns (VNil, Some (DriverError ''no such table'')),
        [Begin_call 0, Exec_call (SqlTx 0) ''DELETE FROM User '' [], Rollback_call 0])"
    using Transaction_closes_once
      [of ?drv "[]" ?e _ "exec_callback ?bad ''DELETE FROM User'' []" 0
          "Returns (VNil, Some (DriverError ''no such table''))"
          "Clear (Raw ?s1 ''DELETE FROM User'' [])"
          "[Begin_call 0, Exec_call (SqlTx 0) ''DELETE FROM User '' []]"] b f3 t2
    by simp
  have f4: "update_callback ?drv [] ?s1 ([] @ [Begin_call (e_db ?e)])
      = (Panics (IndexOutOfRange 0 0), ?s1, [Begin_call 0])"
    by (simp add: update_callback_def Update_def index_def)
  have t4: "s_tx ?s1 = Some 0" by simp
  have c4: "Transaction ?drv ?e (update_callback ?drv []) []
     = (Panics (IndexOutOfRange 0 0), [Begin_call 0, Rollback_call 0])"
    using Transaction_closes_once
      [of ?drv "[]" ?e _ "update_callback ?drv []" 0 "Panics (IndexOutOfRange 0 0)" ?s1
          "[Begin_call 0]"] b f4 t4
    by simp
  from c1 c2 c3 c4 show ?thesis by (simp only: simp_thms)
qed

section \<open>Build and the Clause\<close>

text \<open>
  After \<open>Set(SELECT, "User", ["*"])\<close> and \<open>Build(SELECT)\<close> the Clause still holds the
  SELECT fragment that was assembled.
\<close>

theorem Build_invalidates_counterexample:
  "Clause_Set Clause_zero SELECT [VStr ''User'', VStrs [''*'']]
     = Inr \<lparr>c_sql = [SELECT \<mapsto> ''SELECT * FROM User''], c_sqlVars = [SELECT \<mapsto> []]\<rparr> \<and>
   fst (Clause_Build \<lparr>c_sql = [SELECT \<mapsto> ''SELECT * FROM User''], c_sqlVars = [SELECT \<mapsto> []]\<rparr>
          [SELECT])
     = (''SELECT * FROM User'', []) \<and>
   c_sql (snd (Clause_Build
          \<lparr>c_sql = [SELECT \<mapsto> ''SELECT * FROM User''], c_sqlVars = [SELECT \<mapsto> []]\<rparr> [SELECT]))
       SELECT
     = Some ''SELECT * FROM User''"
  by (simp add: Clause_Set_def Clause_zero_def select_gen_def index_def Clause_Build_def)

lemma Build_loop_Clause_zero: "Build_loop Clause_zero orders sqls vars = (sqls, vars)"
  by (induction orders arbitrary: sqls vars) (simp_all add: Clause_zero_def)

lemma Build_Clause_zero: "fst (Clause_Build Clause_zero orders) = ([], [])"
  by (simp add: Clause_Build_def Build_loop_Clause_zero)

text \<open>
  C7 (amended): \<open>Build\<close> only reads the Clause Set. After \<open>Build(orderedKinds)\<close> the
  Clause Set is what it was before: a second \<open>Build\<close> gives what it would have given
  without the first, and after a \<open>Set\<close> and a \<open>Build\<close> the kind that was set still has
  the fragment and the parameters that its generator produced. The entries are dropped by
  \<open>Session.Clear\<close>, which \<open>Exec\<close>, \<open>QueryRow\<close> and \<open>QueryRows\<close> run when they finish:
  after each of them the Session's Clause Set has no fragment and no parameters for any
  kind, and \<open>Build\<close> on it gives the empty statement with no parameters.
\<close>

theorem Build_keeps_Clause:
  "snd (Clause_Build c orders) = c \<and>
   Clause_Build (snd (Clause_Build c orders)) orders' = Clause_Build c orders' \<and>
   (case generators name vars of
      Inl p \<Rightarrow> Clause_Set c\<^sub>0 name vars = Inl p
    | Inr (sql, ps) \<Rightarrow>
        (\<exists>c1. Clause_Set c\<^sub>0 name vars = Inr c1 \<and>
           c_sql (snd (Clause_Build c1 orders)) name = Some sql \<and>
           c_sqlVars (snd (Clause_Build c1 orders)) name = Some ps)) \<and>
   (case Exec drv s w of (r, s', w') \<Rightarrow>
      c_sql (s_clause s') k = None \<and> c_sqlVars (s_clause s') k = None \<and>
      fst (Clause_Build (s_clause s') orders) = ([], [])) \<and>
   (case QueryRow drv s w of (r, s', w') \<Rightarrow>
      c_sql (s_clause s') k = None \<and> c_sqlVars (s_clause s') k = None \<and>
      fst (Clause_Build (s_clause s') orders) = ([], [])) \<and>
   (case QueryRows drv s w of (r, s', w') \<Rightarrow>
      c_sql (s_clause s') k = None \<and> c_sqlVars (s_clause s') k = None \<and>
      fst (Clause_Build (s_clause s') orders) = ([], []))"
proof -
  have keep: "snd (Clause_Build c orders) = c" for c orders
    by (simp add: Clause_Build_def split: prod.splits)
  have stored: "case generators name vars of
      Inl p \<Rightarrow> Clause_Set c\<^sub>0 name vars = Inl p
    | Inr (sql, ps) \<Rightarrow>
        (\<exists>c1. Clause_Set c\<^sub>0 name vars = Inr c1 \<and>
           c_sql (snd (Clause_Build c1 orders)) name = Some sql \<and>
           c_sqlVars (snd (Clause_Build c1 orders)) name = Some ps)"
    by (simp add: keep Clause_Set_def split: sum.splits prod.splits)
  have zero: "c_sql Clause_zero k = None \<and> c_sqlVars Clause_zero k = None \<and>
      fst (Clause_Build Clause_zero orders) = ([], [])"
    by (simp add: Build_Clause_zero) (simp add: Clause_zero_def)
  have e: "case Exec drv s w of (r, s', w') \<Rightarrow>
      c_sql (s_clause s') k = None \<and> c_sqlVars (s_clause s') k = None \<and>
      fst (Clause_Build (s_clause s') orders) = ([], [])"
    using zero by (simp add: Exec_def Exec_body_def Clear_def)
  have q1: "case QueryRow drv s w of (r, s', w') \<Rightarrow>
      c_sql (s_clause s') k = None \<and> c_sqlVars (s_clause s') k = None \<and>
      fst (Clause_Build (s_clause s') orders) = ([], [])"
    using zero by (simp add: QueryRow_def QueryRow_body_def Clear_def)
  have q2: "case QueryRows drv s w of (r, s', w') \<Rightarrow>
      c_sql (s_clause s') k = None \<and> c_sqlVars (s_clause s') k = None \<and>
      fst (Clause_Build (s_clause s') orders) = ([], [])"
    using zero by (simp add: QueryRows_def QueryRows_body_def Clear_def)
  show ?thesis
    by (intro conjI keep stored e q1 q2) (simp only: keep)
qed

theorem Build_keeps_Clause_witness:
  "Clause_Build
     (snd (Clause_Build \<lparr>c_sql = [SELECT \<mapsto> ''SELECT * FROM User''], c_sqlVars = [SELECT \<mapsto> []]\<rparr>
             [SELECT, WHERE])) [SELECT]
     = ((''SELECT * FROM User'', []),
        \<lparr>c_sql = [SELECT \<mapsto> ''SELECT * FROM User''], c_sqlVars = [SELECT \<mapsto> []]\<rparr>) \<and>
   (\<exists>c1. Clause_Set Clause_zero LIMIT [VInt 3] = Inr c1 \<and>
      c_sql (snd (Clause_Build c1 [SELECT, LIMIT])) LIMIT = Some ''LIMIT ?'' \<and>
      c_sqlVars (snd (Clause_Build c1 [SELECT, LIMIT])) LIMIT = Some [VInt 3]) \<and>
   (case Exec (stub_Driver no_rows)
           ((New 0 sqlite3)\<lparr>s_sql := ''DELETE FROM User '',
              s_clause := \<lparr>c_sql = [DELETE \<mapsto> ''DELETE FROM User''], c_sqlVars = [DELETE \<mapsto> []]\<rparr>\<rparr>)
           [] of
      (r, s', w') \<Rightarrow>
        c_sql (s_clause s') DELETE = None \<and> c_sqlVars (s_clause s') DELETE = None \<and>
        fst (Clause_Build (s_clause s') [DELETE, WHERE]) = ([], []))"
proof -
  let ?c = "\<lparr>c_sql = [SELECT \<mapsto> ''SELECT * FROM User''], c_sqlVars = [SELECT \<mapsto> []]\<rparr>"
  let ?s = "(New 0 sqlite3)\<lparr>s_sql := ''DELETE FROM User '',
              s_clause := \<lparr>c_sql = [DELETE \<mapsto> ''DELETE FROM User''], c_sqlVars = [DELETE \<mapsto> []]\<rparr>\<rparr>"
  have b: "Clause_Build ?c [SELECT] = ((''SELECT * FROM User'', []), ?c)"
    by (simp add: Clause_Build_def)
  have g: "generators LIMIT [VInt 3] = Inr (''LIMIT ?'', [VInt 3])"
    by (simp add: limit_gen_def)
  note t1 = Build_keeps_Clause
    [where c="?c" and orders="[SELECT, WHERE]" and orders'="[SELECT]" and name=LIMIT and vars="[VInt 3]"
       and c\<^sub>0=Clause_zero and drv="stub_Driver no_rows" and s="?s" and w="[]" and k=DELETE]
  note t2 = Build_keeps_Clause
    [where c=Clause_zero and orders="[SELECT, LIMIT]" and orders'="[]" and name=LIMIT and vars="[VInt 3]"
       and c\<^sub>0=Clause_zero and drv="stub_Driver no_rows" and s="?s" and w="[]" and k=DELETE]
  note t3 = Build_keeps_Clause
    [where c=Clause_zero and orders="[DELETE, WHERE]" and orders'="[]" and name=LIMIT and vars="[VInt 3]"
       and c\<^sub>0=Clause_zero and drv="stub_Driver no_rows" and s="?s" and w="[]" and k=DELETE]
  from t1 have c1: "Clause_Build (snd (Clause_Build ?c [SELECT, WHERE])) [SELECT] = ((''SELECT * FROM User'', []), ?c)"
    by (simp only: b) 
  from t2 have c2: "\<exists>c1. Clause_Set Clause_zero LIMIT [VInt 3] = Inr c1 \<and>
      c_sql (snd (Clause_Build c1 [SELECT, LIMIT])) LIMIT = Some ''LIMIT ?'' \<and>
      c_sqlVars (snd (Clause_Build c1 [SELECT, LIMIT])) LIMIT = Some [VInt 3]"
    by (simp only: g sum.case prod.case)
  from t3 have c3: "case Exec (stub_Driver no_rows) ?s [] of
      (r, s', w') \<Rightarrow>
        c_sql (s_clause s') DELETE = None \<and> c_sqlVars (s_clause s') DELETE = None \<and>
        fst (Clause_Build (s_clause s') [DELETE, WHERE]) = ([], [])"
    by (elim conjE)
  from c1 c2 c3 show ?thesis by (intro conjI)
qed

section \<open>Update and its arguments\<close>

lemma Update_loop_odd:
  "i \<le> length kv \<Longrightarrow> odd (length kv - i) \<Longrightarrow> \<exists>p. Update_loop kv i m = Inl p"
proof (induction kv i m rule: Update_loop.induct)
  case (1 kv i m)
  from "1.prems" have lt: "i < length kv" by (cases "i < length kv") auto
  show ?case
  proof (cases "assert_string (kv ! i)")
    case (Inl p)
    with lt show ?thesis by (subst Update_loop.simps) simp
  next
    case (Inr k)
    show ?thesis
    proof (cases "index kv (i + 1)")
      case (Inl p)
      with lt Inr show ?thesis by (subst Update_loop.simps) simp
    next
      case r: (Inr v)
      then have lt2: "i + 1 < length kv" by (auto simp: index_def split: if_splits)
      with "1.prems" have "i + 2 \<le> length kv" "odd (length kv - (i + 2))" by auto
      with "1.IH"[OF lt Inr r] obtain p where "Update_loop kv (i + 2) (AList.update k v m) = Inl p"
        by blast
      with lt Inr r show ?thesis by (subst Update_loop.simps) simp
    qed
  qed
qed

text \<open>
  C10: \<open>Update\<close> with no argument panics on \<open>kv[0]\<close>; \<open>Update\<close> with an odd number of
  arguments, the first of which is not a map, panics in the loop that pairs keys with
  values. In both cases nothing is returned and the Session is as it was.
\<close>

theorem Update_panics:
  "Update drv [] s w = (Panics (IndexOutOfRange 0 0), s, w) \<and>
   (odd (length kv) \<and> (\<forall>m. hd kv \<noteq> VMap m) \<longrightarrow>
      (\<exists>p. Update_loop kv 0 [] = Inl p \<and> Update drv kv s w = (Panics p, s, w)))"
proof (intro conjI impI)
  show "Update drv [] s w = (Panics (IndexOutOfRange 0 0), s, w)"
    by (simp add: Update_def index_def)
next
  assume a: "odd (length kv) \<and> (\<forall>m. hd kv \<noteq> VMap m)"
  then have ne: "kv \<noteq> []" by auto
  then have i0: "index kv 0 = Inr (hd kv)" by (cases kv) (auto simp: index_def)
  from a have nm: "\<exists>p. assert_map (hd kv) = Inl p" by (cases "hd kv") auto
  from a Update_loop_odd[of 0 kv "[]"] obtain p where p: "Update_loop kv 0 [] = Inl p" by auto
  with i0 nm have "Update drv kv s w = (Panics p, s, w)"
    by (auto simp: Update_def)
  with p show "\<exists>p. Update_loop kv 0 [] = Inl p \<and> Update drv kv s w = (Panics p, s, w)" by blast
qed

theorem Update_panics_witness:
  "odd (length [VStr ''Age'']) \<and> (\<forall>m. hd [VStr ''Age''] \<noteq> VMap m) \<and>
   Update_loop [VStr ''Age''] 0 [] = Inl (IndexOutOfRange 1 1) \<and>
   Update (stub_Driver \<lparr>rows_Columns = [], rows_data = [], rows_Close = None\<rparr>)
       [VStr ''Age''] (New 0 sqlite3) []
     = (Panics (IndexOutOfRange 1 1), New 0 sqlite3, [])"
  using Update_panics
    [of "stub_Driver \<lparr>rows_Columns = [], rows_data = [], rows_Close = None\<rparr>"
        "New 0 sqlite3" "[]" "[VStr ''Age'']"]
  by (auto simp: Update_loop.simps index_def)

section \<open>Build assembles in the given order\<close>

lemma Build_loop_closed:
  "Build_loop c orders sqls vars =
     (sqls @ [the (c_sql c k). k \<leftarrow> orders, c_sql c k \<noteq> None],
      vars @ concat [case c_sqlVars c k of None \<Rightarrow> [] | Some vs \<Rightarrow> vs. k \<leftarrow> orders, c_sql c k \<noteq> None])"
  by (induction orders arbitrary: sqls vars) (auto split: option.splits)

lemma Clause_Build_closed:
  "fst (Clause_Build c orders) =
     (Join [the (c_sql c k). k \<leftarrow> orders, c_sql c k \<noteq> None] '' '',
      concat [case c_sqlVars c k of None \<Rightarrow> [] | Some vs \<Rightarrow> vs. k \<leftarrow> orders, c_sql c k \<noteq> None])"
  by (simp add: Clause_Build_def Build_loop_closed)

lemma Join_snoc: "Join (xs @ [y]) sep = (if xs = [] then y else Join xs sep @ sep @ y)"
  by (induction xs sep rule: Join.induct) auto


lemma Clause_Set_testSelect:
  assumes "(name, vars) \<in> set testSelect_calls"
  shows "Clause_Set c name vars = Inr (testSelect_Clause c {name})"
  using assms
  by (auto simp: testSelect_calls_def Clause_Set_def testSelect_Clause_def limit_gen_def
      select_gen_def where_gen_def orderBy_gen_def index_def fun_eq_iff)

lemma testSelect_Clause_twice:
  "testSelect_Clause (testSelect_Clause c K) K' = testSelect_Clause c (K \<union> K')"
  by (auto simp: testSelect_Clause_def fun_eq_iff)

lemma Set_all_testSelect:
  "set ops \<subseteq> set testSelect_calls \<Longrightarrow> Set_all c ops = Inr (testSelect_Clause c (fst ` set ops))"
proof (induction ops arbitrary: c)
  case Nil
  show ?case by (simp add: testSelect_Clause_def)
next
  case (Cons op ops)
  obtain name vars where op: "op = (name, vars)" by (cases op)
  with Cons.prems have "(name, vars) \<in> set testSelect_calls" by simp
  then have "Clause_Set c name vars = Inr (testSelect_Clause c {name})"
    by (rule Clause_Set_testSelect)
  moreover from Cons have "Set_all (testSelect_Clause c {name}) ops =
      Inr (testSelect_Clause (testSelect_Clause c {name}) (fst ` set ops))"
    by simp
  ultimately show ?case using op by (simp add: testSelect_Clause_twice)
qed

lemma testSelect_any_order:
  assumes "mset ops = mset testSelect_calls"
  shows "\<exists>c. Set_all Clause_zero ops = Inr c \<and>
     fst (Clause_Build c [SELECT, WHERE, ORDERBY, LIMIT]) =
       (''SELECT * FROM User WHERE Name = ? ORDER BY Age DESC LIMIT ?'', [VStr ''Tom'', VInt 3])"
proof -
  from assms have eq: "set ops = set testSelect_calls" by (rule mset_eq_setD)
  then have "Set_all Clause_zero ops = Inr (testSelect_Clause Clause_zero (fst ` set ops))"
    by (intro Set_all_testSelect) simp
  moreover have "fst ` set ops = {LIMIT, SELECT, WHERE, ORDERBY}"
    by (simp add: eq testSelect_calls_def)
  moreover have "fst (Clause_Build (testSelect_Clause Clause_zero {LIMIT, SELECT, WHERE, ORDERBY})
        [SELECT, WHERE, ORDERBY, LIMIT]) =
       (''SELECT * FROM User WHERE Name = ? ORDER BY Age DESC LIMIT ?'', [VStr ''Tom'', VInt 3])"
    by (simp add: Clause_Build_def testSelect_Clause_def)
  ultimately show ?thesis by simp
qed

text \<open>
  C5: the four \<open>Set\<close> calls of \<open>testSelect\<close>, made in any order, followed by
  \<open>Build(SELECT, WHERE, ORDERBY, LIMIT)\<close> give the statement
  \<open>SELECT * FROM User WHERE Name = ? ORDER BY Age DESC LIMIT ?\<close> with the parameters
  \<open>["Tom", 3]\<close>. In general \<open>Build\<close> joins with single spaces the fragments of the kinds
  of \<open>orders\<close> that have an entry, in the order of \<open>orders\<close>, and concatenates their
  parameters in the same order; a kind without an entry is skipped.
\<close>

theorem Build_joins_in_order:
  "(mset ops = mset testSelect_calls \<longrightarrow>
      (\<exists>c. Set_all Clause_zero ops = Inr c \<and>
         fst (Clause_Build c [SELECT, WHERE, ORDERBY, LIMIT]) =
           (''SELECT * FROM User WHERE Name = ? ORDER BY Age DESC LIMIT ?'',
            [VStr ''Tom'', VInt 3]))) \<and>
   fst (Clause_Build c' orders) =
     (Join [the (c_sql c' k). k \<leftarrow> orders, c_sql c' k \<noteq> None] '' '',
      concat [case c_sqlVars c' k of None \<Rightarrow> [] | Some vs \<Rightarrow> vs.
              k \<leftarrow> orders, c_sql c' k \<noteq> None])"
  using testSelect_any_order Clause_Build_closed by blast

theorem Build_joins_in_order_witness:
  "mset [(ORDERBY, [VStr ''Age DESC'']), (WHERE, [VStr ''Name = ?'', VStr ''Tom'']),
         (SELECT, [VStr ''User'', VStrs [''*'']]), (LIMIT, [VInt 3])] = mset testSelect_calls \<and>
   (\<exists>c. Set_all Clause_zero
           [(ORDERBY, [VStr ''Age DESC'']), (WHERE, [VStr ''Name = ?'', VStr ''Tom'']),
            (SELECT, [VStr ''User'', VStrs [''*'']]), (LIMIT, [VInt 3])] = Inr c \<and>
      fst (Clause_Build c [SELECT, WHERE, ORDERBY, LIMIT]) =
        (''SELECT * FROM User WHERE Name = ? ORDER BY Age DESC LIMIT ?'', [VStr ''Tom'', VInt 3])) \<and>
   fst (Clause_Build
          \<lparr>c_sql = [DELETE \<mapsto> ''DELETE FROM User'', LIMIT \<mapsto> ''LIMIT ?''],
           c_sqlVars = [DELETE \<mapsto> [], LIMIT \<mapsto> [VInt 3]]\<rparr> [DELETE, WHERE, LIMIT])
     = (''DELETE FROM User LIMIT ?'', [VInt 3])"
  using Build_joins_in_order
    [of "[(ORDERBY, [VStr ''Age DESC'']), (WHERE, [VStr ''Name = ?'', VStr ''Tom'']),
          (SELECT, [VStr ''User'', VStrs [''*'']]), (LIMIT, [VInt 3])]"
        "\<lparr>c_sql = [DELETE \<mapsto> ''DELETE FROM User'', LIMIT \<mapsto> ''LIMIT ?''],
          c_sqlVars = [DELETE \<mapsto> [], LIMIT \<mapsto> [VInt 3]]\<rparr>" "[DELETE, WHERE, LIMIT]"]
  by (simp add: testSelect_calls_def)

section \<open>The UPDATE generator\<close>

lemma update_loop_closed:
  "update_loop m keys vars = (keys @ map (\<lambda>kv. fst kv @ '' = ?'') m, vars @ map snd m)"
  by (induction m keys vars rule: update_loop.induct) auto

lemma update_gen_closed:
  "update_gen [VStr t, VMap m] =
     Inr (''UPDATE '' @ t @ '' SET '' @ Join (map (\<lambda>k. k @ '' = ?'') (map fst m)) '', '', map snd m)"
  by (simp add: update_gen_def index_def update_loop_closed comp_def)

text \<open>
  C8: for a table name \<open>t\<close> and a map \<open>m\<close> (distinct keys, in whatever order \<open>range\<close>
  enumerates it), \<open>_update\<close> returns \<open>UPDATE t SET k1 = ?, ..., kn = ?\<close> where
  \<open>k1, ..., kn\<close> are the keys of \<open>m\<close>, each once, and as many parameters, the \<open>i\<close>-th
  of which is the value of \<open>m\<close> at \<open>ki\<close>.
\<close>

theorem update_gen_pairs:
  assumes "distinct (map fst m)"
  shows "\<exists>ks vars.
     update_gen [VStr t, VMap m] =
       Inr (''UPDATE '' @ t @ '' SET '' @ Join (map (\<lambda>k. k @ '' = ?'') ks) '', '', vars) \<and>
     distinct ks \<and> set ks = dom (map_of m) \<and>
     length vars = length ks \<and>
     (\<forall>i < length ks. map_of m (ks ! i) = Some (vars ! i))"
proof (intro exI conjI)
  show "update_gen [VStr t, VMap m] =
       Inr (''UPDATE '' @ t @ '' SET '' @ Join (map (\<lambda>k. k @ '' = ?'') (map fst m)) '', '', map snd m)"
    by (rule update_gen_closed)
  show "distinct (map fst m)" by (rule assms)
  show "set (map fst m) = dom (map_of m)" by (simp add: dom_map_of_conv_image_fst)
  show "length (map snd m) = length (map fst m)" by simp
  show "\<forall>i < length (map fst m). map_of m (map fst m ! i) = Some (map snd m ! i)"
  proof (intro allI impI)
    fix i assume "i < length (map fst m)"
    then have i: "i < length m" by simp
    then have "m ! i \<in> set m" by simp
    then have "(fst (m ! i), snd (m ! i)) \<in> set m" by simp
    with assms have "map_of m (fst (m ! i)) = Some (snd (m ! i))"
      by (intro map_of_is_SomeI)
    with i show "map_of m (map fst m ! i) = Some (map snd m ! i)" by simp
  qed
qed

theorem update_gen_pairs_witness:
  "distinct (map fst [(''Name'', VStr ''Tom''), (''Age'', VInt 18)]) \<and>
   (\<exists>ks vars.
     update_gen [VStr ''User'', VMap [(''Name'', VStr ''Tom''), (''Age'', VInt 18)]] =
       Inr (''UPDATE User SET '' @ Join (map (\<lambda>k. k @ '' = ?'') ks) '', '', vars) \<and>
     distinct ks \<and> set ks = {''Name'', ''Age''} \<and> length vars = length ks \<and>
     (\<forall>i < length ks.
        map_of [(''Name'', VStr ''Tom''), (''Age'', VInt 18)] (ks ! i) = Some (vars ! i)))"
  using update_gen_pairs [of "[(''Name'', VStr ''Tom''), (''Age'', VInt 18)]" "''User''"]
  by (simp add: insert_commute)

section \<open>Parse\<close>

lemma Parse_loop_returns:
  assumes "mapped d ps" and "fieldMap_ok schema"
  shows "\<exists>s'. Parse_loop d ps schema = Inr s' \<and>
           map f_Name (sc_Fields s') = map f_Name (sc_Fields schema) @ map sf_Name (filter column ps) \<and>
           sc_FieldNames s' = sc_FieldNames schema @ map sf_Name (filter column ps) \<and>
           fieldMap_ok s' \<and> sc_Name s' = sc_Name schema \<and> sc_Model s' = sc_Model schema"
  using assms
proof (induction ps arbitrary: schema)
  case Nil
  then show ?case by simp
next
  case (Cons p ps)
  from Cons.prems(1) have rest: "mapped d ps" by (simp add: mapped_def)
  show ?case
  proof (cases "column p")
    case False
    then have "Parse_loop d (p # ps) schema = Parse_loop d ps schema"
      by (auto simp: column_def)
    with Cons.IH[OF rest Cons.prems(2)] False show ?thesis by simp
  next
    case True
    with Cons.prems(1) obtain ty where ty: "DataTypeOf d (sf_Type p) = Inr ty"
      by (auto simp: mapped_def)
    define field where "field = \<lparr>f_Name = sf_Name p, f_Type = ty,
                          f_Tag = (case sf_geeorm p of Some v \<Rightarrow> v | None \<Rightarrow> [])\<rparr>"
    define schema' where "schema' = schema\<lparr>sc_Fields := sc_Fields schema @ [field],
                          sc_FieldNames := sc_FieldNames schema @ [sf_Name p],
                          sc_fieldMap := (sc_fieldMap schema)(sf_Name p \<mapsto> field)\<rparr>"
    have step: "Parse_loop d (p # ps) schema = Parse_loop d ps schema'"
      using True ty by (simp add: field_def schema'_def column_def Let_def)
    have ok': "fieldMap_ok schema'"
      using Cons.prems(2) by (auto simp: fieldMap_ok_def schema'_def field_def)
    from Cons.IH[OF rest ok'] obtain s' where
      "Parse_loop d ps schema' = Inr s'"
      "map f_Name (sc_Fields s') = map f_Name (sc_Fields schema') @ map sf_Name (filter column ps)"
      "sc_FieldNames s' = sc_FieldNames schema' @ map sf_Name (filter column ps)"
      "fieldMap_ok s'" "sc_Name s' = sc_Name schema'" "sc_Model s' = sc_Model schema'"
      by blast
    with True step show ?thesis by (simp add: schema'_def field_def)
  qed
qed

lemma Parse_loop_panics:
  "\<not> mapped d ps \<Longrightarrow>
     \<exists>p \<in> set ps. \<exists>pn. column p \<and> DataTypeOf d (sf_Type p) = Inl pn \<and>
        Parse_loop d ps schema = Inl pn"
proof (induction ps arbitrary: schema)
  case Nil
  then show ?case by (simp add: mapped_def)
next
  case (Cons p ps)
  show ?case
  proof (cases "column p")
    case False
    with Cons.prems have "\<not> mapped d ps" by (auto simp: mapped_def)
    from Cons.IH[OF this, of schema] obtain q pn where
      "q \<in> set ps" "column q" "DataTypeOf d (sf_Type q) = Inl pn" "Parse_loop d ps schema = Inl pn"
      by blast
    moreover from False have "Parse_loop d (p # ps) schema = Parse_loop d ps schema"
      by (auto simp: column_def)
    ultimately show ?thesis by auto
  next
    case True
    show ?thesis
    proof (cases "DataTypeOf d (sf_Type p)")
      case (Inl pn)
      with True have "Parse_loop d (p # ps) schema = Inl pn" by (simp add: column_def)
      with True Inl show ?thesis by auto
    next
      case (Inr ty)
      with True Cons.prems have rest: "\<not> mapped d ps" by (auto simp: mapped_def)
      define schema' where "schema' = schema\<lparr>sc_Fields := sc_Fields schema @
             [\<lparr>f_Name = sf_Name p, f_Type = ty,
               f_Tag = (case sf_geeorm p of Some v \<Rightarrow> v | None \<Rightarrow> [])\<rparr>],
           sc_FieldNames := sc_FieldNames schema @ [sf_Name p],
           sc_fieldMap := (sc_fieldMap schema)(sf_Name p \<mapsto>
              \<lparr>f_Name = sf_Name p, f_Type = ty,
               f_Tag = (case sf_geeorm p of Some v \<Rightarrow> v | None \<Rightarrow> [])\<rparr>)\<rparr>"
      have step: "Parse_loop d (p # ps) schema = Parse_loop d ps schema'"
        using True Inr by (simp add: column_def Let_def schema'_def)
      from Cons.IH[OF rest, of schema'] obtain q pn where
        "q \<in> set ps" "column q" "DataTypeOf d (sf_Type q) = Inl pn" "Parse_loop d ps schema' = Inl pn"
        by blast
      with step show ?thesis by auto
    qed
  qed
qed

text \<open>
  C6 (amended): take a record type handed to \<open>Parse\<close> as a struct or through a pointer
  that is not nil. If the dialect has a data type for the type of each of its exported,
  non-anonymous fields, \<open>Parse\<close> returns a Schema, named after the type, with one Field for
  each such field and no other, in declaration order; \<open>FieldNames\<close> is as long as
  \<open>Fields\<close> and \<open>FieldNames[i]\<close> is \<open>Fields[i].Name\<close>; the keys of the name index are
  exactly the names of the Fields, each leading to a Field of that name. If the dialect
  has no data type for the type of some exported, non-anonymous field, \<open>Parse\<close> panics
  with the dialect's panic for such a field and returns no Schema. On a nil pointer
  \<open>Parse\<close> panics.
\<close>

theorem Parse_columns:
  "(Indirect dest = Some t \<and>
    (\<forall>p \<in> set (st_Fields t).
        \<not> sf_Anonymous p \<and> sf_Exported p \<longrightarrow> (\<exists>ty. DataTypeOf d (sf_Type p) = Inr ty)) \<longrightarrow>
      (\<exists>schema. Parse dest d = Inr schema \<and>
         sc_Name schema = st_Name t \<and>
         length (sc_Fields schema) =
           length (filter (\<lambda>p. \<not> sf_Anonymous p \<and> sf_Exported p) (st_Fields t)) \<and>
         map f_Name (sc_Fields schema) =
           map sf_Name (filter (\<lambda>p. \<not> sf_Anonymous p \<and> sf_Exported p) (st_Fields t)) \<and>
         length (sc_FieldNames schema) = length (sc_Fields schema) \<and>
         (\<forall>i < length (sc_Fields schema).
            sc_FieldNames schema ! i = f_Name (sc_Fields schema ! i)) \<and>
         dom (sc_fieldMap schema) = set (map f_Name (sc_Fields schema)) \<and>
         (\<forall>n f. sc_fieldMap schema n = Some f \<longrightarrow> f \<in> set (sc_Fields schema) \<and> f_Name f = n))) \<and>
   (Indirect dest = Some t \<and>
    (\<exists>p \<in> set (st_Fields t).
        \<not> sf_Anonymous p \<and> sf_Exported p \<and> (\<forall>ty. DataTypeOf d (sf_Type p) \<noteq> Inr ty)) \<longrightarrow>
      (\<exists>p \<in> set (st_Fields t). \<exists>pn.
         \<not> sf_Anonymous p \<and> sf_Exported p \<and> DataTypeOf d (sf_Type p) = Inl pn \<and>
         Parse dest d = Inl pn)) \<and>
   (Indirect dest = None \<longrightarrow> Parse dest d = Inl ReflectValueError)"
proof (intro conjI impI)
  assume a: "Indirect dest = Some t \<and>
    (\<forall>p \<in> set (st_Fields t).
        \<not> sf_Anonymous p \<and> sf_Exported p \<longrightarrow> (\<exists>ty. DataTypeOf d (sf_Type p) = Inr ty))"
  let ?init = "\<lparr>sc_Model = dest, sc_Name = st_Name t, sc_Fields = [],
                sc_FieldNames = [], sc_fieldMap = Map.empty\<rparr>"
  have col: "column = (\<lambda>p. \<not> sf_Anonymous p \<and> sf_Exported p)"
    by (simp add: column_def fun_eq_iff)
  from a have m: "mapped d (st_Fields t)" by (simp add: mapped_def column_def)
  have ok: "fieldMap_ok ?init" by (simp add: fieldMap_ok_def)
  from Parse_loop_returns[OF m ok] obtain s' where
    r: "Parse_loop d (st_Fields t) ?init = Inr s'"
    and f: "map f_Name (sc_Fields s') = map sf_Name (filter column (st_Fields t))"
    and n: "sc_FieldNames s' = map sf_Name (filter column (st_Fields t))"
    and k: "fieldMap_ok s'"
    and nm: "sc_Name s' = st_Name t"
    by auto
  from f have len: "length (sc_Fields s') = length (filter column (st_Fields t))"
    by (metis length_map)
  from f n have fn: "sc_FieldNames s' = map f_Name (sc_Fields s')" by simp
  have "Parse dest d = Inr s'" using r a by (simp add: Parse_def)
  moreover have "\<forall>i < length (sc_Fields s'). sc_FieldNames s' ! i = f_Name (sc_Fields s' ! i)"
    by (simp add: fn)
  moreover have "length (sc_FieldNames s') = length (sc_Fields s')" by (simp add: fn)
  moreover from k fn have "dom (sc_fieldMap s') = set (map f_Name (sc_Fields s'))"
    by (simp add: fieldMap_ok_def)
  moreover from k have "\<forall>n f. sc_fieldMap s' n = Some f \<longrightarrow> f \<in> set (sc_Fields s') \<and> f_Name f = n"
    by (simp add: fieldMap_ok_def)
  ultimately show "\<exists>schema. Parse dest d = Inr schema \<and>
         sc_Name schema = st_Name t \<and>
         length (sc_Fields schema) =
           length (filter (\<lambda>p. \<not> sf_Anonymous p \<and> sf_Exported p) (st_Fields t)) \<and>
         map f_Name (sc_Fields schema) =
           map sf_Name (filter (\<lambda>p. \<not> sf_Anonymous p \<and> sf_Exported p) (st_Fields t)) \<and>
         length (sc_FieldNames schema) = length (sc_Fields schema) \<and>
         (\<forall>i < length (sc_Fields schema).
            sc_FieldNames schema ! i = f_Name (sc_Fields schema ! i)) \<and>
         dom (sc_fieldMap schema) = set (map f_Name (sc_Fields schema)) \<and>
         (\<forall>n f. sc_fieldMap schema n = Some f \<longrightarrow> f \<in> set (sc_Fields schema) \<and> f_Name f = n)"
    using f len nm unfolding col by blast
next
  assume a: "Indirect dest = Some t \<and>
    (\<exists>p \<in> set (st_Fields t).
        \<not> sf_Anonymous p \<and> sf_Exported p \<and> (\<forall>ty. DataTypeOf d (sf_Type p) \<noteq> Inr ty))"
  then have "\<not> mapped d (st_Fields t)" by (auto simp: mapped_def column_def)
  from Parse_loop_panics[OF this] obtain p pn where
    "p \<in> set (st_Fields t)" "column p" "DataTypeOf d (sf_Type p) = Inl pn"
    "Parse_loop d (st_Fields t) \<lparr>sc_Model = dest, sc_Name = st_Name t, sc_Fields = [],
                sc_FieldNames = [], sc_fieldMap = Map.empty\<rparr> = Inl pn"
    by blast
  with a show "\<exists>p \<in> set (st_Fields t). \<exists>pn.
         \<not> sf_Anonymous p \<and> sf_Exported p \<and> DataTypeOf d (sf_Type p) = Inl pn \<and>
         Parse dest d = Inl pn"
    by (auto simp: Parse_def column_def)
next
  assume "Indirect dest = None"
  then show "Parse dest d = Inl ReflectValueError" by (simp add: Parse_def)
qed

theorem Parse_columns_witness:
  "(\<exists>schema.
      Parse (Pointer Member) sqlite3 = Inr schema \<and>
      length (sc_Fields schema) = 2 \<and>
      map f_Name (sc_Fields schema) = [''Id'', ''Joined''] \<and>
      sc_FieldNames schema = [''Id'', ''Joined''] \<and>
      dom (sc_fieldMap schema) = {''Id'', ''Joined''}) \<and>
   Parse (StructValue Order) sqlite3 = Inl (InvalidSqlType ''User'' reflect_Struct) \<and>
   Parse (NilPointer User) sqlite3 = Inl ReflectValueError"
proof -
  note t = Parse_columns[where dest="Pointer Member" and t=Member and d=sqlite3]
  have "Indirect (Pointer Member) = Some Member \<and>
        (\<forall>p \<in> set (st_Fields Member).
          \<not> sf_Anonymous p \<and> sf_Exported p \<longrightarrow> (\<exists>ty. DataTypeOf sqlite3 (sf_Type p) = Inr ty))"
    by (simp add: Member_def sqlite3_def sqlite3_DataTypeOf_def)
  with t obtain schema where
    p: "Parse (Pointer Member) sqlite3 = Inr schema"
    and l: "length (sc_Fields schema) =
       length (filter (\<lambda>p. \<not> sf_Anonymous p \<and> sf_Exported p) (st_Fields Member))"
    and n: "map f_Name (sc_Fields schema) =
       map sf_Name (filter (\<lambda>p. \<not> sf_Anonymous p \<and> sf_Exported p) (st_Fields Member))"
    and ll: "length (sc_FieldNames schema) = length (sc_Fields schema)"
    and i: "\<forall>i < length (sc_Fields schema). sc_FieldNames schema ! i = f_Name (sc_Fields schema ! i)"
    and d: "dom (sc_fieldMap schema) = set (map f_Name (sc_Fields schema))"
    by blast
  from l have l2: "length (sc_Fields schema) = 2" by (simp add: Member_def)
  from n have n2: "map f_Name (sc_Fields schema) = [''Id'', ''Joined'']" by (simp add: Member_def)
  from ll i have "sc_FieldNames schema = map f_Name (sc_Fields schema)"
    by (intro nth_equalityI) simp_all
  with n2 have f2: "sc_FieldNames schema = [''Id'', ''Joined'']" by simp
  from d n2 have d2: "dom (sc_fieldMap schema) = {''Id'', ''Joined''}" by simp
  have c1: "\<exists>schema.
      Parse (Pointer Member) sqlite3 = Inr schema \<and>
      length (sc_Fields schema) = 2 \<and>
      map f_Name (sc_Fields schema) = [''Id'', ''Joined''] \<and>
      sc_FieldNames schema = [''Id'', ''Joined''] \<and>
      dom (sc_fieldMap schema) = {''Id'', ''Joined''}"
    by (rule exI[of _ schema]) (simp only: p l2 n2 f2 d2 simp_thms)
  note u = Parse_columns[where dest="StructValue Order" and t=Order and d=sqlite3]
  have "Indirect (StructValue Order) = Some Order \<and>
        (\<exists>p \<in> set (st_Fields Order).
           \<not> sf_Anonymous p \<and> sf_Exported p \<and> (\<forall>ty. DataTypeOf sqlite3 (sf_Type p) \<noteq> Inr ty))"
    by (simp add: Order_def sqlite3_def sqlite3_DataTypeOf_def)
  with u obtain p pn where
    "p \<in> set (st_Fields Order)" "DataTypeOf sqlite3 (sf_Type p) = Inl pn"
    "Parse (StructValue Order) sqlite3 = Inl pn"
    by blast
  then have c2: "Parse (StructValue Order) sqlite3 = Inl (InvalidSqlType ''User'' reflect_Struct)"
    by (auto simp: Order_def sqlite3_def sqlite3_DataTypeOf_def)
  have c3: "Parse (NilPointer User) sqlite3 = Inl ReflectValueError"
    using Parse_columns[where dest="NilPointer User" and d=sqlite3] by simp
  from c1 c2 c3 show ?thesis by (intro conjI)
qed

text \<open>
  A struct with one exported field whose type is another struct: sqlite3 has no data type
  for it, and \<open>Parse\<close> panics.
\<close>

theorem Parse_unmapped_counterexample:
  "Parse (Pointer Order) sqlite3 = Inl (InvalidSqlType ''User'' reflect_Struct)"
  by (simp add: Parse_def Order_def sqlite3_def sqlite3_DataTypeOf_def)

section \<open>First\<close>

text \<open>
  \<open>First\<close> is \<open>Limit(1)\<close> followed by \<open>Find\<close> into a fresh slice. The lemmas below
  follow it step by step: what \<open>Limit\<close> and \<open>Model\<close> leave in the Session, the statement
  that \<open>Build\<close> assembles, the query that \<open>Find\<close> sends, and what the loop over the rows
  does with the answer of the driver.
\<close>

lemma Limit_eq:
  "Limit s n = Inr (s\<lparr>s_clause := (s_clause s)\<lparr>c_sql := (c_sql (s_clause s))(LIMIT \<mapsto> ''LIMIT ?''),
       c_sqlVars := (c_sqlVars (s_clause s))(LIMIT \<mapsto> [VInt n])\<rparr>\<rparr>)"
  by (simp add: Limit_def Clause_Set_def limit_gen_def)

lemma Model_bound:
  assumes "Session_ok s" and "Parse (StructValue t) (s_dialect s) = Inr table"
  shows "Model s (StructValue t) = Inr (s\<lparr>s_refTable := Some table\<rparr>)"
proof (cases "s_refTable s = None \<or>
    Some (TypeOf (StructValue t)) \<noteq> map_option (\<lambda>t. TypeOf (sc_Model t)) (s_refTable s)")
  case True
  with assms(2) show ?thesis by (simp add: Model_def)
next
  case False
  then obtain t' where t': "s_refTable s = Some t'" "TypeOf (sc_Model t') = StructType t" by auto
  then have "sc_Model t' = StructValue t" by (cases "sc_Model t'") simp_all
  with t' assms have "t' = table" by (simp add: Session_ok_def)
  with t' have same: "s\<lparr>s_refTable := Some table\<rparr> = s" by simp
  from False have "Model s (StructValue t) = Inr s" by (simp only: Model_def if_False)
  then show ?thesis by (simp only: same)
qed

lemma Clause_Set_SELECT:
  "Clause_Set c SELECT [VStr n, VStrs ns] =
     Inr (c\<lparr>c_sql := (c_sql c)(SELECT \<mapsto> ''SELECT '' @ Join ns '', '' @ '' FROM '' @ n),
            c_sqlVars := (c_sqlVars c)(SELECT \<mapsto> [])\<rparr>)"
  by (simp add: Clause_Set_def select_gen_def index_def)

lemma Build_loop_snoc:
  "Build_loop c (orders @ [k]) sqls vars =
     (case Build_loop c orders sqls vars of
        (xs, as) \<Rightarrow>
          (case c_sql c k of
             Some sql \<Rightarrow> (xs @ [sql], as @ (case c_sqlVars c k of None \<Rightarrow> [] | Some vs \<Rightarrow> vs))
           | None \<Rightarrow> (xs, as)))"
  by (induction orders arbitrary: sqls vars) (simp_all split: option.splits)

lemma Join_snoc_suffix: "\<exists>pre. Join (xs @ [y]) sep = pre @ y"
proof (cases "xs = []")
  case True
  then show ?thesis by simp
next
  case False
  then have "Join (xs @ [y]) sep = (Join xs sep @ sep) @ y" by (simp add: Join_snoc)
  then show ?thesis by (rule exI)
qed

lemma Build_ends_with_LIMIT:
  assumes "c_sql c LIMIT = Some lim" and "c_sqlVars c LIMIT = Some vs"
  shows "\<exists>pre args. Clause_Build c [SELECT, WHERE, ORDERBY, LIMIT] = ((pre @ lim, args @ vs), c)"
proof -
  obtain xs as where xs: "Build_loop c [SELECT, WHERE, ORDERBY] [] [] = (xs, as)"
    by (cases "Build_loop c [SELECT, WHERE, ORDERBY] [] []")
  have "Build_loop c ([SELECT, WHERE, ORDERBY] @ [LIMIT]) [] [] = (xs @ [lim], as @ vs)"
    by (simp only: Build_loop_snoc xs assms prod.case option.case)
  then have l: "Build_loop c [SELECT, WHERE, ORDERBY, LIMIT] [] [] = (xs @ [lim], as @ vs)"
    by simp
  obtain pre where pre: "Join (xs @ [lim]) '' '' = pre @ lim"
    using Join_snoc_suffix by blast
  have "Clause_Build c [SELECT, WHERE, ORDERBY, LIMIT] = ((pre @ lim, as @ vs), c)"
    by (simp only: Clause_Build_def l Let_def prod.case pre)
  then show ?thesis by (intro exI)
qed

lemma QueryRows_eq:
  "QueryRows drv s w =
     (drv_Query drv w (DB s) (s_sql s) (s_sqlVars s), Clear s,
      w @ [Query_call (DB s) (s_sql s) (s_sqlVars s)])"
  by (simp add: QueryRows_def QueryRows_body_def)

lemma DB_cong: "s_tx s' = s_tx s \<Longrightarrow> s_db s' = s_db s \<Longrightarrow> DB s' = DB s"
  by (cases "s_tx s") (simp_all add: DB_def)

lemma Find_sends_query:
  assumes ok: "Session_ok s"
    and parse: "Parse (StructValue destType) (s_dialect s) = Inr table"
    and lim: "c_sql (s_clause s) LIMIT = Some lim" "c_sqlVars (s_clause s) LIMIT = Some vs"
  shows "\<exists>pre args s2. \<forall>drv destValue.
     Find drv destType destValue s w =
       (case drv_Query drv w (DB s) (pre @ lim @ '' '') (args @ vs) of
          Inl err \<Rightarrow>
            (Returns (Some err), destValue, s2,
             w @ [Query_call (DB s) (pre @ lim @ '' '') (args @ vs)])
        | Inr rows \<Rightarrow>
            (case Find_loop drv destType (sc_FieldNames table) (rows_data rows) destValue of
               (Returns None, destValue') \<Rightarrow>
                 (Returns (rows_Close rows), destValue', s2,
                  w @ [Query_call (DB s) (pre @ lim @ '' '') (args @ vs)])
             | (r, destValue') \<Rightarrow>
                 (r, destValue', s2, w @ [Query_call (DB s) (pre @ lim @ '' '') (args @ vs)])))"
proof -
  define s1 where "s1 = s\<lparr>s_refTable := Some table\<rparr>"
  define c where "c = (s_clause s)\<lparr>c_sql := (c_sql (s_clause s))
                (SELECT \<mapsto> ''SELECT '' @ Join (sc_FieldNames table) '', '' @ '' FROM '' @ sc_Name table),
              c_sqlVars := (c_sqlVars (s_clause s))(SELECT \<mapsto> [])\<rparr>"
  have m: "Model s (StructValue destType) = Inr s1"
    unfolding s1_def using ok parse by (rule Model_bound)
  have rt: "RefTable s1 = Some table" by (simp add: RefTable_def s1_def)
  have set: "Clause_Set (s_clause s1) SELECT [VStr (sc_Name table), VStrs (sc_FieldNames table)] = Inr c"
    by (simp add: Clause_Set_SELECT s1_def c_def)
  from lim have "c_sql c LIMIT = Some lim" "c_sqlVars c LIMIT = Some vs" by (simp_all add: c_def)
  from Build_ends_with_LIMIT[OF this] obtain pre args where
    b: "Clause_Build c [SELECT, WHERE, ORDERBY, LIMIT] = ((pre @ lim, args @ vs), c)" by blast
  define s3 where "s3 = Raw (s1\<lparr>s_clause := c\<rparr>) (pre @ lim) (args @ vs)"
  define Q where "Q = (s_sql s @ pre) @ lim @ '' ''"
  define A where "A = (s_sqlVars s @ args) @ vs"
  have "s_tx s3 = s_tx s" "s_db s3 = s_db s" by (simp_all add: s3_def Raw_def s1_def)
  then have db: "DB s3 = DB s" by (rule DB_cong)
  have sq: "s_sql s3 = Q" "s_sqlVars s3 = A"
    by (simp_all add: s3_def Raw_def s1_def Q_def A_def)
  have q: "QueryRows drv s3 w = (drv_Query drv w (DB s) Q A, Clear s3, w @ [Query_call (DB s) Q A])"
    for drv
    by (simp only: QueryRows_eq db sq)
  have fin: "Find drv destType destValue s w =
       (case drv_Query drv w (DB s) Q A of
          Inl err \<Rightarrow> (Returns (Some err), destValue, Clear s3, w @ [Query_call (DB s) Q A])
        | Inr rows \<Rightarrow>
            (case Find_loop drv destType (sc_FieldNames table) (rows_data rows) destValue of
               (Returns None, destValue') \<Rightarrow>
                 (Returns (rows_Close rows), destValue', Clear s3, w @ [Query_call (DB s) Q A])
             | (r, destValue') \<Rightarrow> (r, destValue', Clear s3, w @ [Query_call (DB s) Q A])))"
    for drv destValue
  proof (cases "drv_Query drv w (DB s) Q A")
    case (Inl err)
    show ?thesis
      unfolding Find_def m sum.case rt option.case set b prod.case s3_def[symmetric] q Inl ..
  next
    case (Inr rows)
    show ?thesis
      unfolding Find_def m sum.case rt option.case set b prod.case s3_def[symmetric] q Inr ..
  qed
  show ?thesis
    apply (rule exI[of _ "s_sql s @ pre"], rule exI[of _ "s_sqlVars s @ args"])
    apply (rule exI[of _ "Clear s3"])
    apply (intro allI)
    apply (rule fin[unfolded Q_def A_def])
    done
qed

lemma Parse_loop_names:
  "Parse_loop d ps schema = Inr s' \<Longrightarrow>
     sc_FieldNames s' = sc_FieldNames schema @ map sf_Name (filter column ps)"
proof (induction ps arbitrary: schema)
  case Nil
  then show ?case by simp
next
  case (Cons p ps)
  show ?case
  proof (cases "column p")
    case False
    then have "Parse_loop d (p # ps) schema = Parse_loop d ps schema"
      by (auto simp: column_def)
    with Cons.prems have "Parse_loop d ps schema = Inr s'" by simp
    from Cons.IH[OF this] False show ?thesis by simp
  next
    case True
    show ?thesis
    proof (cases "DataTypeOf d (sf_Type p)")
      case (Inl pn)
      with True Cons.prems show ?thesis by (simp add: column_def)
    next
      case (Inr ty)
      define schema' where "schema' = schema\<lparr>sc_Fields := sc_Fields schema @
             [\<lparr>f_Name = sf_Name p, f_Type = ty,
               f_Tag = (case sf_geeorm p of Some v \<Rightarrow> v | None \<Rightarrow> [])\<rparr>],
           sc_FieldNames := sc_FieldNames schema @ [sf_Name p],
           sc_fieldMap := (sc_fieldMap schema)(sf_Name p \<mapsto>
              \<lparr>f_Name = sf_Name p, f_Type = ty,
               f_Tag = (case sf_geeorm p of Some v \<Rightarrow> v | None \<Rightarrow> [])\<rparr>)\<rparr>"
      have "Parse_loop d (p # ps) schema = Parse_loop d ps schema'"
        using True Inr by (simp add: column_def Let_def schema'_def)
      with Cons.prems have "Parse_loop d ps schema' = Inr s'" by simp
      from Cons.IH[OF this] True show ?thesis by (simp add: schema'_def)
    qed
  qed
qed

lemma field_pointers_found:
  "set names \<subseteq> sf_Name ` set (st_Fields t) \<Longrightarrow> \<exists>tys. field_pointers t names = Inr tys"
proof (induction names)
  case Nil
  show ?case by simp
next
  case (Cons n names)
  then obtain tys where tys: "field_pointers t names = Inr tys" by auto
  from Cons.prems have "\<exists>p \<in> set (st_Fields t). sf_Name p = n" by auto
  then obtain p where "find (\<lambda>p. sf_Name p = n) (st_Fields t) = Some p"
    by (cases "find (\<lambda>p. sf_Name p = n) (st_Fields t)") (auto simp: find_None_iff)
  with tys show ?case by simp
qed

lemma field_pointers_Parse:
  assumes "Parse dest d = Inr table" and "Indirect dest = Some destType"
  shows "\<exists>tys. field_pointers destType (sc_FieldNames table) = Inr tys"
proof -
  from assms have "sc_FieldNames table = map sf_Name (filter column (st_Fields destType))"
    by (auto simp: Parse_def dest: Parse_loop_names)
  then have "set (sc_FieldNames table) \<subseteq> sf_Name ` set (st_Fields destType)" by auto
  then show ?thesis by (rule field_pointers_found)
qed

lemma Parse_loop_Model: "Parse_loop d ps schema = Inr s' \<Longrightarrow> sc_Model s' = sc_Model schema"
proof (induction ps arbitrary: schema)
  case Nil
  then show ?case by simp
next
  case (Cons p ps)
  show ?case
  proof (cases "\<not> sf_Anonymous p \<and> sf_Exported p")
    case False
    with Cons.prems have "Parse_loop d ps schema = Inr s'" by auto
    from Cons.IH[OF this] show ?thesis .
  next
    case True
    show ?thesis
    proof (cases "DataTypeOf d (sf_Type p)")
      case (Inl pn)
      with True Cons.prems show ?thesis by simp
    next
      case (Inr ty)
      define schema' where "schema' = schema\<lparr>sc_Fields := sc_Fields schema @
             [\<lparr>f_Name = sf_Name p, f_Type = ty,
               f_Tag = (case sf_geeorm p of Some v \<Rightarrow> v | None \<Rightarrow> [])\<rparr>],
           sc_FieldNames := sc_FieldNames schema @ [sf_Name p],
           sc_fieldMap := (sc_fieldMap schema)(sf_Name p \<mapsto>
              \<lparr>f_Name = sf_Name p, f_Type = ty,
               f_Tag = (case sf_geeorm p of Some v \<Rightarrow> v | None \<Rightarrow> [])\<rparr>)\<rparr>"
      have "Parse_loop d (p # ps) schema = Parse_loop d ps schema'"
        using True Inr by (simp add: Let_def schema'_def)
      with Cons.prems have "Parse_loop d ps schema' = Inr s'" by simp
      from Cons.IH[OF this] show ?thesis by (simp add: schema'_def)
    qed
  qed
qed

lemma Parse_Model: "Parse val d = Inr schema \<Longrightarrow> sc_Model schema = val"
  by (auto simp: Parse_def split: option.splits dest: Parse_loop_Model)

lemma Session_ok_New: "Session_ok (New db dialect)"
  by (simp add: Session_ok_def New_def)

lemma Session_ok_cong:
  "s_refTable s' = s_refTable s \<Longrightarrow> s_dialect s' = s_dialect s \<Longrightarrow> Session_ok s' = Session_ok s"
  by (simp add: Session_ok_def split: option.splits)

lemma Session_ok_Model:
  assumes "Session_ok s" and "Model s val = Inr s'"
  shows "Session_ok s'"
proof (cases "s_refTable s = None \<or>
    Some (TypeOf val) \<noteq> map_option (\<lambda>t. TypeOf (sc_Model t)) (s_refTable s)")
  case False
  with assms(2) have "s' = s" by (simp add: Model_def)
  with assms(1) show ?thesis by simp
next
  case True
  with assms(2) obtain schema where
    p: "Parse val (s_dialect s) = Inr schema" and s': "s' = s\<lparr>s_refTable := Some schema\<rparr>"
    by (auto simp: Model_def split: sum.splits)
  from p have "sc_Model schema = val" by (rule Parse_Model)
  with p s' show ?thesis by (simp add: Session_ok_def)
qed

lemma Session_ok_Raw: "Session_ok (Raw s q a) = Session_ok s"
  by (rule Session_ok_cong) (simp_all add: Raw_def)

lemma Session_ok_Clear: "Session_ok (Clear s) = Session_ok s"
  by (rule Session_ok_cong) (simp_all add: Clear_def)

lemma Session_ok_Exec: "Session_ok (fst (snd (Exec drv s w))) = Session_ok s"
  by (rule Session_ok_cong) (simp_all add: Exec_def Exec_body_def Clear_def)

lemma Session_ok_QueryRow: "Session_ok (fst (snd (QueryRow drv s w))) = Session_ok s"
  by (rule Session_ok_cong) (simp_all add: QueryRow_def QueryRow_body_def Clear_def)

lemma Session_ok_QueryRows: "Session_ok (fst (snd (QueryRows drv s w))) = Session_ok s"
  by (rule Session_ok_cong) (simp_all add: QueryRows_def QueryRows_body_def Clear_def)

lemma Session_ok_Limit: "Limit s n = Inr s' \<Longrightarrow> Session_ok s' = Session_ok s"
  by (rule Session_ok_cong) (auto simp: Limit_def split: sum.splits)

lemma Session_ok_Where: "Where s desc args = Inr s' \<Longrightarrow> Session_ok s' = Session_ok s"
  by (rule Session_ok_cong) (auto simp: Where_def split: sum.splits)

lemma Session_ok_OrderBy: "OrderBy s desc = Inr s' \<Longrightarrow> Session_ok s' = Session_ok s"
  by (rule Session_ok_cong) (auto simp: OrderBy_def split: sum.splits)

lemma Session_ok_Begin: "Session_ok (fst (snd (Begin drv s w))) = Session_ok s"
  by (rule Session_ok_cong) (simp_all add: Begin_def split: sum.splits)

lemma Session_ok_Update: "Session_ok (fst (snd (Update drv kv s w))) = Session_ok s"
proof -
  have e: "Session_ok (fst (snd (Exec drv (Raw (s\<lparr>s_clause := c\<rparr>) q a) w))) = Session_ok s" for c q a
    by (simp add: Session_ok_Exec Session_ok_Raw) (rule Session_ok_cong, simp_all)
  show ?thesis
    unfolding Update_def
    by (auto split: sum.splits option.splits prod.splits simp: e
        dest: arg_cong[where f="\<lambda>x. Session_ok (fst (snd x))"])
qed

lemma Session_ok_Find:
  assumes "Session_ok s"
  shows "Session_ok (fst (snd (snd (Find drv destType destValue s w))))"
proof (cases "Model s (StructValue destType)")
  case (Inl p)
  with assms show ?thesis by (simp add: Find_def)
next
  case (Inr s1)
  with assms have ok1: "Session_ok s1" by (rule Session_ok_Model)
  show ?thesis
  proof (cases "RefTable s1")
    case None
    with Inr ok1 show ?thesis by (simp add: Find_def)
  next
    case (Some table)
    show ?thesis
    proof (cases "Clause_Set (s_clause s1) SELECT [VStr (sc_Name table), VStrs (sc_FieldNames table)]")
      case (Inl p)
      with Inr Some ok1 show ?thesis by (simp add: Find_def)
    next
      case c: (Inr c)
      obtain sql vars c' where b: "Clause_Build c [SELECT, WHERE, ORDERBY, LIMIT] = ((sql, vars), c')"
        by (metis prod.collapse)
      define s3 where "s3 = Raw (s1\<lparr>s_clause := c'\<rparr>) sql vars"
      have "Session_ok s3 = Session_ok s1"
        by (rule Session_ok_cong) (simp_all add: s3_def Raw_def)
      with ok1 have ok3: "Session_ok s3" by simp
      obtain r s2 w2 where q: "QueryRows drv s3 w = (r, s2, w2)" by (metis prod.collapse)
      from Session_ok_QueryRows[of drv s3 w] q ok3 have ok2: "Session_ok s2" by simp
      show ?thesis
        using Inr Some c b q ok2
        by (simp add: Find_def s3_def[symmetric] split: sum.splits prod.splits outcome.splits option.splits)
    qed
  qed
qed

lemma Session_ok_First:
  assumes "Session_ok s"
  shows "Session_ok (fst (snd (snd (First drv destType val s w))))"
proof (cases "val = DestNilPointer")
  case True
  with assms show ?thesis by (simp add: First_def)
next
  case False
  show ?thesis
  proof (cases "Limit s 1")
    case (Inl p)
    with False assms show ?thesis by (simp add: First_def)
  next
    case (Inr s1)
    with assms have ok1: "Session_ok s1" by (simp add: Session_ok_Limit)
    obtain r ds s2 w2 where f: "Find drv destType [] s1 w = (r, ds, s2, w2)"
      by (metis prod.collapse)
    from Session_ok_Find[OF ok1, of drv destType "[]" w] f have "Session_ok s2" by simp
    with False Inr f show ?thesis
      by (simp add: First_def split: outcome.splits option.splits dest_ref.splits)
  qed
qed

lemma First_characterised:
  assumes ok: "Session_ok s"
    and parse: "Parse (StructValue destType) (s_dialect s) = Inr table"
  shows "\<exists>sql vars s' tys.
     field_pointers destType (sc_FieldNames table) = Inr tys \<and>
     (\<forall>drv dest.
        snd (snd (snd (First drv destType (DestPointer dest) s w))) =
          w @ [Query_call (DB s) (sql @ ''LIMIT ? '') (vars @ [VInt 1])] \<and>
        (\<forall>err. drv_Query drv w (DB s) (sql @ ''LIMIT ? '') (vars @ [VInt 1]) = Inl err \<longrightarrow>
           First drv destType (DestPointer dest) s w =
             (Returns (Some err), DestPointer dest, s',
              w @ [Query_call (DB s) (sql @ ''LIMIT ? '') (vars @ [VInt 1])])) \<and>
        (\<forall>rows. drv_Query drv w (DB s) (sql @ ''LIMIT ? '') (vars @ [VInt 1]) = Inr rows \<longrightarrow>
           (rows_data rows = [] \<longrightarrow>
              First drv destType (DestPointer dest) s w =
                (Returns (Some (case rows_Close rows of
                                  None \<Rightarrow> ErrorsNew ''NOT FOUND'' | Some e \<Rightarrow> e)),
                 DestPointer dest, s',
                 w @ [Query_call (DB s) (sql @ ''LIMIT ? '') (vars @ [VInt 1])])) \<and>
           (\<forall>row rest e. rows_data rows = row # rest \<and> drv_Scan drv row tys = Inl e \<longrightarrow>
              First drv destType (DestPointer dest) s w =
                (Returns (Some e), DestPointer dest, s',
                 w @ [Query_call (DB s) (sql @ ''LIMIT ? '') (vars @ [VInt 1])])) \<and>
           (\<forall>row vals. rows_data rows = [row] \<and> drv_Scan drv row tys = Inr vals \<longrightarrow>
              First drv destType (DestPointer dest) s w =
                (case rows_Close rows of
                   None \<Rightarrow>
                     (Returns None, DestPointer (store (sc_FieldNames table) vals Map.empty), s',
                      w @ [Query_call (DB s) (sql @ ''LIMIT ? '') (vars @ [VInt 1])])
                 | Some e \<Rightarrow>
                     (Returns (Some e), DestPointer dest, s',
                      w @ [Query_call (DB s) (sql @ ''LIMIT ? '') (vars @ [VInt 1])])))))"
proof -
  define s1 where "s1 = s\<lparr>s_clause := (s_clause s)\<lparr>c_sql := (c_sql (s_clause s))(LIMIT \<mapsto> ''LIMIT ?''),
       c_sqlVars := (c_sqlVars (s_clause s))(LIMIT \<mapsto> [VInt 1])\<rparr>\<rparr>"
  have l: "Limit s 1 = Inr s1" unfolding s1_def by (rule Limit_eq)
  have ok1: "Session_ok s1" using ok by (auto simp: Session_ok_def s1_def split: option.splits)
  have parse1: "Parse (StructValue destType) (s_dialect s1) = Inr table"
    using parse by (simp add: s1_def)
  have "s_tx s1 = s_tx s" "s_db s1 = s_db s" by (simp_all add: s1_def)
  then have db: "DB s1 = DB s" by (rule DB_cong)
  have lim: "c_sql (s_clause s1) LIMIT = Some ''LIMIT ?''" "c_sqlVars (s_clause s1) LIMIT = Some [VInt 1]"
    by (simp_all add: s1_def)
  from Find_sends_query[OF ok1 parse1 lim, of w] obtain pre args s2 where
    f: "\<And>drv destValue. Find drv destType destValue s1 w =
       (case drv_Query drv w (DB s1) (pre @ ''LIMIT ?'' @ '' '') (args @ [VInt 1]) of
          Inl err \<Rightarrow>
            (Returns (Some err), destValue, s2,
             w @ [Query_call (DB s1) (pre @ ''LIMIT ?'' @ '' '') (args @ [VInt 1])])
        | Inr rows \<Rightarrow>
            (case Find_loop drv destType (sc_FieldNames table) (rows_data rows) destValue of
               (Returns None, destValue') \<Rightarrow>
                 (Returns (rows_Close rows), destValue', s2,
                  w @ [Query_call (DB s1) (pre @ ''LIMIT ?'' @ '' '') (args @ [VInt 1])])
             | (r, destValue') \<Rightarrow>
                 (r, destValue', s2,
                  w @ [Query_call (DB s1) (pre @ ''LIMIT ?'' @ '' '') (args @ [VInt 1])])))"
    by blast
  have "Indirect (StructValue destType) = Some destType" by simp
  from field_pointers_Parse[OF parse this] obtain tys where
    tys: "field_pointers destType (sc_FieldNames table) = Inr tys" by blast
  let ?w' = "w @ [Query_call (DB s) (pre @ ''LIMIT ? '') (args @ [VInt 1])]"
  have sent: "snd (snd (snd (First drv destType (DestPointer dest) s w))) = ?w'" for drv dest
    by (simp add: First_def l f db split: sum.splits prod.splits outcome.splits option.splits)
  have failed: "First drv destType (DestPointer dest) s w = (Returns (Some err), DestPointer dest, s2, ?w')"
    if "drv_Query drv w (DB s) (pre @ ''LIMIT ? '') (args @ [VInt 1]) = Inl err" for drv dest err
    using that by (simp add: First_def l f db)
  have zero: "First drv destType (DestPointer dest) s w =
      (Returns (Some (case rows_Close rows of None \<Rightarrow> ErrorsNew ''NOT FOUND'' | Some e \<Rightarrow> e)),
       DestPointer dest, s2, ?w')"
    if "drv_Query drv w (DB s) (pre @ ''LIMIT ? '') (args @ [VInt 1]) = Inr rows"
      "rows_data rows = []" for drv dest rows
    using that by (simp add: First_def l f db split: option.splits)
  have scan_fails: "First drv destType (DestPointer dest) s w =
      (Returns (Some e), DestPointer dest, s2, ?w')"
    if "drv_Query drv w (DB s) (pre @ ''LIMIT ? '') (args @ [VInt 1]) = Inr rows"
      "rows_data rows = row # rest" "drv_Scan drv row tys = Inl e" for drv dest rows row rest e
    using that tys by (simp add: First_def l f db)
  have one: "First drv destType (DestPointer dest) s w =
      (case rows_Close rows of
         None \<Rightarrow> (Returns None, DestPointer (store (sc_FieldNames table) vals Map.empty), s2, ?w')
       | Some e \<Rightarrow> (Returns (Some e), DestPointer dest, s2, ?w'))"
    if "drv_Query drv w (DB s) (pre @ ''LIMIT ? '') (args @ [VInt 1]) = Inr rows"
      "rows_data rows = [row]" "drv_Scan drv row tys = Inr vals"
    for drv dest rows row vals
    using that tys by (simp add: First_def l f db split: option.splits)
  show ?thesis
    apply (rule exI[of _ pre], rule exI[of _ args], rule exI[of _ s2], rule exI[of _ tys])
    apply (intro conjI allI impI)
         apply (rule tys)
        apply (rule sent)
       apply (erule failed)
      apply (erule (1) zero)
     apply (elim conjE, erule (2) scan_fails)
    apply (elim conjE, erule (2) one)
    done
qed

lemma First_Parse_panics:
  assumes none: "s_refTable s = None"
    and parse: "Parse (StructValue destType) (s_dialect s) = Inl p"
  shows "\<exists>s'. \<forall>drv dest.
     First drv destType (DestPointer dest) s w = (Panics p, DestPointer dest, s', w)"
proof -
  define s1 where "s1 = s\<lparr>s_clause := (s_clause s)\<lparr>c_sql := (c_sql (s_clause s))(LIMIT \<mapsto> ''LIMIT ?''),
       c_sqlVars := (c_sqlVars (s_clause s))(LIMIT \<mapsto> [VInt 1])\<rparr>\<rparr>"
  have l: "Limit s 1 = Inr s1" unfolding s1_def by (rule Limit_eq)
  have "Model s1 (StructValue destType) = Inl p"
    using none parse by (simp add: Model_def s1_def)
  then have "Find drv destType [] s1 w = (Panics p, [], s1, w)" for drv
    by (simp add: Find_def)
  then have "First drv destType (DestPointer dest) s w = (Panics p, DestPointer dest, s1, w)"
    for drv dest
    by (simp add: First_def l)
  then show ?thesis by blast
qed

text \<open>
  One row comes back and \<open>Scan\<close> fails on it: \<open>First\<close> returns the error of \<open>Scan\<close> and
  copies nothing. No row comes back and \<open>Close\<close> fails: \<open>First\<close> returns the error of
  \<open>Close\<close>, not \<open>NOT FOUND\<close>.
\<close>

theorem First_errors_counterexample:
  "fst (First ((stub_Driver \<lparr>rows_Columns = [''Name'', ''Age''],
                              rows_data = [ [VStr ''Tom'', VInt 18] ], rows_Close = None\<rparr>)
                \<lparr>drv_Scan := (\<lambda>row tys. Inl (DriverError ''unsupported Scan''))\<rparr>)
          User (DestPointer Map.empty) (New 0 sqlite3) [])
     = Returns (Some (DriverError ''unsupported Scan'')) \<and>
   fst (snd (First ((stub_Driver \<lparr>rows_Columns = [''Name'', ''Age''],
                              rows_data = [ [VStr ''Tom'', VInt 18] ], rows_Close = None\<rparr>)
                \<lparr>drv_Scan := (\<lambda>row tys. Inl (DriverError ''unsupported Scan''))\<rparr>)
          User (DestPointer Map.empty) (New 0 sqlite3) []))
     = DestPointer Map.empty \<and>
   fst (First (stub_Driver \<lparr>rows_Columns = [''Name'', ''Age''], rows_data = [],
                             rows_Close = Some (DriverError ''connection lost'')\<rparr>)
          User (DestPointer Map.empty) (New 0 sqlite3) [])
     = Returns (Some (DriverError ''connection lost''))"
proof -
  let ?rows1 = "\<lparr>rows_Columns = [''Name'', ''Age''], rows_data = [ [VStr ''Tom'', VInt 18] ],
                 rows_Close = None\<rparr>"
  let ?rows0 = "\<lparr>rows_Columns = [''Name'', ''Age''], rows_data = [],
                 rows_Close = Some (DriverError ''connection lost'')\<rparr>"
  let ?bad = "(stub_Driver ?rows1)\<lparr>drv_Scan := (\<lambda>row tys. Inl (DriverError ''unsupported Scan''))\<rparr>"
  have ok: "Session_ok (New 0 sqlite3)" by (rule Session_ok_New)
  have parse: "Parse (StructValue User) (s_dialect (New 0 sqlite3)) = Inr User_Schema"
    by (simp add: Parse_def New_def User_def User_Schema_def sqlite3_def sqlite3_DataTypeOf_def
        Let_def)
  from First_characterised[OF ok parse, of "[]"] obtain sql vars s' tys where
    scan: "\<And>drv dest rows row rest e.
        drv_Query drv [] (DB (New 0 sqlite3)) (sql @ ''LIMIT ? '') (vars @ [VInt 1]) = Inr rows \<Longrightarrow>
        rows_data rows = row # rest \<Longrightarrow> drv_Scan drv row tys = Inl e \<Longrightarrow>
        First drv User (DestPointer dest) (New 0 sqlite3) [] =
          (Returns (Some e), DestPointer dest, s',
           [] @ [Query_call (DB (New 0 sqlite3)) (sql @ ''LIMIT ? '') (vars @ [VInt 1])])"
    and zero: "\<And>drv dest rows.
        drv_Query drv [] (DB (New 0 sqlite3)) (sql @ ''LIMIT ? '') (vars @ [VInt 1]) = Inr rows \<Longrightarrow>
        rows_data rows = [] \<Longrightarrow>
        First drv User (DestPointer dest) (New 0 sqlite3) [] =
          (Returns (Some (case rows_Close rows of None \<Rightarrow> ErrorsNew ''NOT FOUND'' | Some e \<Rightarrow> e)),
           DestPointer dest, s',
           [] @ [Query_call (DB (New 0 sqlite3)) (sql @ ''LIMIT ? '') (vars @ [VInt 1])])"
    by blast
  have r1: "First ?bad User (DestPointer Map.empty) (New 0 sqlite3) [] =
      (Returns (Some (DriverError ''unsupported Scan'')), DestPointer Map.empty, s',
       [] @ [Query_call (DB (New 0 sqlite3)) (sql @ ''LIMIT ? '') (vars @ [VInt 1])])"
    by (rule scan[of ?bad ?rows1 "[VStr ''Tom'', VInt 18]" "[]"]) (simp_all add: stub_Driver_def)
  have r0: "First (stub_Driver ?rows0) User (DestPointer Map.empty) (New 0 sqlite3) [] =
      (Returns (Some (DriverError ''connection lost'')), DestPointer Map.empty, s',
       [] @ [Query_call (DB (New 0 sqlite3)) (sql @ ''LIMIT ? '') (vars @ [VInt 1])])"
    using zero[of "stub_Driver ?rows0" ?rows0 Map.empty] by (simp add: stub_Driver_def)
  show ?thesis by (simp only: r1 r0 fst_conv snd_conv simp_thms)
qed

text \<open>
  C9 (amended): take a destination record given through a pointer, on a Session whose
  Schema, if it has one, was parsed from its model (as on every Session made by \<open>New\<close>
  and used through its operations), and let the destination type parse to \<open>table\<close>.
  Then \<open>First\<close> makes exactly one call to the database: a query whose text ends in
  \<open>LIMIT ?\<close> and whose last parameter is 1. When the query fails, \<open>First\<close> returns the
  driver's error. When no row comes back, \<open>First\<close> returns the error of \<open>Close\<close> if
  \<open>Close\<close> fails and otherwise \<open>errors.New("NOT FOUND")\<close>, an error of its own making.
  When \<open>Scan\<close> fails on the first row, \<open>First\<close> returns the error of \<open>Scan\<close>. When one
  row comes back and \<open>Scan\<close> succeeds on it, \<open>First\<close> returns the error of \<open>Close\<close> if
  \<open>Close\<close> fails, and otherwise no error, and the destination holds the scanned values
  under the column names. Whenever \<open>First\<close> returns an error the destination is as it
  was. When no Schema is bound and the destination type does not parse, \<open>First\<close> panics
  with the panic of \<open>Parse\<close> and makes no call.
\<close>

theorem First_not_found_or_copied:
  "(Session_ok s \<and> Parse (StructValue destType) (s_dialect s) = Inr table \<longrightarrow>
    (\<exists>sql vars s' tys.
       field_pointers destType (sc_FieldNames table) = Inr tys \<and>
       (\<forall>drv dest.
          snd (snd (snd (First drv destType (DestPointer dest) s w))) =
            w @ [Query_call (DB s) (sql @ ''LIMIT ? '') (vars @ [VInt 1])] \<and>
          (\<forall>err. drv_Query drv w (DB s) (sql @ ''LIMIT ? '') (vars @ [VInt 1]) = Inl err \<longrightarrow>
             First drv destType (DestPointer dest) s w =
               (Returns (Some err), DestPointer dest, s',
                w @ [Query_call (DB s) (sql @ ''LIMIT ? '') (vars @ [VInt 1])])) \<and>
          (\<forall>rows. drv_Query drv w (DB s) (sql @ ''LIMIT ? '') (vars @ [VInt 1]) = Inr rows \<longrightarrow>
             (rows_data rows = [] \<longrightarrow>
                First drv destType (DestPointer dest) s w =
                  (Returns (Some (case rows_Close rows of
                                    None \<Rightarrow> ErrorsNew ''NOT FOUND'' | Some e \<Rightarrow> e)),
                   DestPointer dest, s',
                   w @ [Query_call (DB s) (sql @ ''LIMIT ? '') (vars @ [VInt 1])])) \<and>
             (\<forall>row rest e. rows_data rows = row # rest \<and> drv_Scan drv row tys = Inl e \<longrightarrow>
                First drv destType (DestPointer dest) s w =
                  (Returns (Some e), DestPointer dest, s',
                   w @ [Query_call (DB s) (sql @ ''LIMIT ? '') (vars @ [VInt 1])])) \<and>
             (\<forall>row vals. rows_data rows = [row] \<and> drv_Scan drv row tys = Inr vals \<longrightarrow>
                First drv destType (DestPointer dest) s w =
                  (case rows_Close rows of
                     None \<Rightarrow>
                       (Returns None, DestPointer (store (sc_FieldNames table) vals Map.empty), s',
                        w @ [Query_call (DB s) (sql @ ''LIMIT ? '') (vars @ [VInt 1])])
                   | Some e \<Rightarrow>
                       (Returns (Some e), DestPointer dest, s',
                        w @ [Query_call (DB s) (sql @ ''LIMIT ? '') (vars @ [VInt 1])]))))))) \<and>
   (s_refTable s = None \<and> Parse (StructValue destType) (s_dialect s) = Inl p \<longrightarrow>
      (\<exists>s'. \<forall>drv dest.
         First drv destType (DestPointer dest) s w = (Panics p, DestPointer dest, s', w))) \<and>
   Session_ok (New db dialect) \<and>
   (Session_ok s \<longrightarrow> Session_ok (fst (snd (snd (First drv' destType val s w)))))"
  using First_characterised[of s destType table w] First_Parse_panics[of s destType p w]
    Session_ok_New[of db dialect] Session_ok_First[of s drv' destType val w]
  by (intro conjI impI) (elim conjE, assumption)+

theorem First_not_found_or_copied_witness:
  "(\<exists>sql vars s'.
     First (stub_Driver \<lparr>rows_Columns = [''Name'', ''Age''], rows_data = [], rows_Close = None\<rparr>)
         User (DestPointer Map.empty) (New 0 sqlite3) []
       = (Returns (Some (ErrorsNew ''NOT FOUND'')), DestPointer Map.empty, s',
          [Query_call (SqlDB 0) (sql @ ''LIMIT ? '') (vars @ [VInt 1])]) \<and>
     First (stub_Driver \<lparr>rows_Columns = [''Name'', ''Age''],
                         rows_data = [ [VStr ''Tom'', VInt 18] ], rows_Close = None\<rparr>)
         User (DestPointer Map.empty) (New 0 sqlite3) []
       = (Returns None, DestPointer [''Name'' \<mapsto> VStr ''Tom'', ''Age'' \<mapsto> VInt 18], s',
          [Query_call (SqlDB 0) (sql @ ''LIMIT ? '') (vars @ [VInt 1])])) \<and>
   (\<exists>s'. First (stub_Driver no_rows) Order (DestPointer Map.empty) (New 0 sqlite3) []
       = (Panics (InvalidSqlType ''User'' reflect_Struct), DestPointer Map.empty, s', []))"
proof -
  let ?rows0 = "\<lparr>rows_Columns = [''Name'', ''Age''], rows_data = [], rows_Close = None\<rparr>"
  let ?rows1 = "\<lparr>rows_Columns = [''Name'', ''Age''], rows_data = [ [VStr ''Tom'', VInt 18] ],
                 rows_Close = None\<rparr>"
  have ok: "Session_ok (New 0 sqlite3)" by (simp add: Session_ok_def New_def)
  have parse: "Parse (StructValue User) (s_dialect (New 0 sqlite3)) = Inr User_Schema"
    by (simp add: Parse_def New_def User_def User_Schema_def sqlite3_def sqlite3_DataTypeOf_def
        Let_def)
  have db: "DB (New 0 sqlite3) = SqlDB 0" by (simp add: DB_def New_def)
  note t = First_not_found_or_copied
    [where s="New 0 sqlite3" and destType=User and table=User_Schema and w="[]",
     THEN conjunct1, THEN mp, OF conjI[OF ok parse]]
  from t obtain sql vars s' tys where
    tys: "field_pointers User (sc_FieldNames User_Schema) = Inr tys"
    and zero: "\<And>drv dest rows.
        drv_Query drv [] (DB (New 0 sqlite3)) (sql @ ''LIMIT ? '') (vars @ [VInt 1]) = Inr rows \<Longrightarrow>
        rows_data rows = [] \<Longrightarrow>
        First drv User (DestPointer dest) (New 0 sqlite3) [] =
          (Returns (Some (case rows_Close rows of None \<Rightarrow> ErrorsNew ''NOT FOUND'' | Some e \<Rightarrow> e)),
           DestPointer dest, s',
           [] @ [Query_call (DB (New 0 sqlite3)) (sql @ ''LIMIT ? '') (vars @ [VInt 1])])"
    and one: "\<And>drv dest rows row vals.
        drv_Query drv [] (DB (New 0 sqlite3)) (sql @ ''LIMIT ? '') (vars @ [VInt 1]) = Inr rows \<Longrightarrow>
        rows_data rows = [row] \<Longrightarrow> drv_Scan drv row tys = Inr vals \<Longrightarrow>
        First drv User (DestPointer dest) (New 0 sqlite3) [] =
          (case rows_Close rows of
             None \<Rightarrow>
               (Returns None, DestPointer (store (sc_FieldNames User_Schema) vals Map.empty), s',
                [] @ [Query_call (DB (New 0 sqlite3)) (sql @ ''LIMIT ? '') (vars @ [VInt 1])])
           | Some e \<Rightarrow>
               (Returns (Some e), DestPointer dest, s',
                [] @ [Query_call (DB (New 0 sqlite3)) (sql @ ''LIMIT ? '') (vars @ [VInt 1])]))"
    by (elim exE conjE) (rule that; (assumption | blast))
  have r0: "First (stub_Driver ?rows0) User (DestPointer Map.empty) (New 0 sqlite3) [] =
          (Returns (Some (ErrorsNew ''NOT FOUND'')), DestPointer Map.empty, s',
           [Query_call (SqlDB 0) (sql @ ''LIMIT ? '') (vars @ [VInt 1])])"
    using zero[of "stub_Driver ?rows0" ?rows0 Map.empty] by (simp add: stub_Driver_def db)
  from tys have "length tys = 2" by (auto simp: User_Schema_def User_def)
  then have scan: "drv_Scan (stub_Driver ?rows1) [VStr ''Tom'', VInt 18] tys = Inr [VStr ''Tom'', VInt 18]"
    by (simp add: stub_Driver_def)
  have st: "store (sc_FieldNames User_Schema) [VStr ''Tom'', VInt 18] Map.empty
       = [''Name'' \<mapsto> VStr ''Tom'', ''Age'' \<mapsto> VInt 18]"
    by (simp add: User_Schema_def)
  have r1: "First (stub_Driver ?rows1) User (DestPointer Map.empty) (New 0 sqlite3) [] =
          (Returns None, DestPointer [''Name'' \<mapsto> VStr ''Tom'', ''Age'' \<mapsto> VInt 18], s',
           [Query_call (SqlDB 0) (sql @ ''LIMIT ? '') (vars @ [VInt 1])])"
    using one[of "stub_Driver ?rows1" ?rows1 "[VStr ''Tom'', VInt 18]" "[VStr ''Tom'', VInt 18]" Map.empty]
      scan
    by (simp add: stub_Driver_def db st)
  have c1: "\<exists>sql vars s'.
     First (stub_Driver ?rows0) User (DestPointer Map.empty) (New 0 sqlite3) []
       = (Returns (Some (ErrorsNew ''NOT FOUND'')), DestPointer Map.empty, s',
          [Query_call (SqlDB 0) (sql @ ''LIMIT ? '') (vars @ [VInt 1])]) \<and>
     First (stub_Driver ?rows1) User (DestPointer Map.empty) (New 0 sqlite3) []
       = (Returns None, DestPointer [''Name'' \<mapsto> VStr ''Tom'', ''Age'' \<mapsto> VInt 18], s',
          [Query_call (SqlDB 0) (sql @ ''LIMIT ? '') (vars @ [VInt 1])])"
    by (rule exI[of _ sql], rule exI[of _ vars], rule exI[of _ s']) (simp only: r0 r1 simp_thms)
  have none: "s_refTable (New 0 sqlite3) = None" by (simp add: New_def)
  have bad: "Parse (StructValue Order) (s_dialect (New 0 sqlite3)) =
      Inl (InvalidSqlType ''User'' reflect_Struct)"
    by (simp add: Parse_def New_def Order_def sqlite3_def sqlite3_DataTypeOf_def)
  note u = First_not_found_or_copied
    [where s="New 0 sqlite3" and destType=Order and w="[]"
       and p="InvalidSqlType ''User'' reflect_Struct",
     THEN conjunct2, THEN conjunct1, THEN mp, OF conjI[OF none bad]]
  from u obtain s'' where
    "\<And>drv dest. First drv Order (DestPointer dest) (New 0 sqlite3) [] =
        (Panics (InvalidSqlType ''User'' reflect_Struct), DestPointer dest, s'', [])"
    by blast
  then have c2: "\<exists>s'. First (stub_Driver no_rows) Order (DestPointer Map.empty) (New 0 sqlite3) []
       = (Panics (InvalidSqlType ''User'' reflect_Struct), DestPointer Map.empty, s', [])"
    by blast
  from c1 c2 show ?thesis by (rule conjI)
qed

end
